theory Spec2Isabelle
  imports Main "HOL-Library.Sublist" "HOL-Library.AList"
begin

section \<open>Strings\<close>

text \<open>
  A Python \<open>str\<close> is a sequence of Unicode code points; it is modelled as a list of
  natural numbers, one per code point.  \<open>lit\<close> turns an ASCII literal of the scripts into
  such a list.
\<close>

type_synonym ustring = "nat list"

definition lit :: "string \<Rightarrow> ustring" where
  "lit s = map of_char s"

text \<open>
  The code points for which \<open>str.isspace\<close> holds.  The class \<open>\s\<close> of module \<open>re\<close>
  (on \<open>str\<close> patterns) and \<open>str.strip()\<close> use the same set.
\<close>

definition isspace :: "nat \<Rightarrow> bool" where
  "isspace c \<longleftrightarrow>
     (9 \<le> c \<and> c \<le> 13) \<or> (28 \<le> c \<and> c \<le> 32) \<or> c = 133 \<or> c = 160 \<or> c = 5760 \<or>
     (8192 \<le> c \<and> c \<le> 8202) \<or> c = 8232 \<or> c = 8233 \<or> c = 8239 \<or> c = 8287 \<or> c = 12288"

text \<open>\<open>s.strip()\<close>: whitespace removed at both ends.\<close>

definition strip :: "ustring \<Rightarrow> ustring" where
  "strip s = rev (dropWhile isspace (rev (dropWhile isspace s)))"

text \<open>\<open>s.split(',')\<close>: the fields between commas; the empty string has one empty field.\<close>

fun split_comma :: "ustring \<Rightarrow> ustring list" where
  "split_comma [] = [[]]"
| "split_comma (c # s) =
     (if c = 44 then [] # split_comma s
      else (case split_comma s of
              [] \<Rightarrow> [[c]]
            | t # ts \<Rightarrow> (c # t) # ts))"

section \<open>The profile pattern\<close>

text \<open>
  \<open>profile_pattern = r'^\[(?:profile\s+)?([^\]]+)\]'\<close>, searched with \<open>re.MULTILINE\<close>.
  The matcher is a backtracking one, as \<open>re\<close> is: a greedy \<open>+\<close> takes the longest run
  first and gives characters back one at a time until the rest of the pattern matches.
  The continuation \<open>k\<close> is the rest of the pattern; it receives the text taken by the
  \<open>+\<close> and the text that follows.
\<close>

fun first_some :: "('a \<Rightarrow> 'b option) \<Rightarrow> 'a list \<Rightarrow> 'b option" where
  "first_some f [] = None"
| "first_some f (x # xs) = (case f x of Some y \<Rightarrow> Some y | None \<Rightarrow> first_some f xs)"

fun down_from :: "nat \<Rightarrow> nat list" where
  "down_from 0 = []"
| "down_from (Suc n) = Suc n # down_from n"

definition greedy_plus ::
  "(nat \<Rightarrow> bool) \<Rightarrow> (ustring \<Rightarrow> ustring \<Rightarrow> 'a option) \<Rightarrow> ustring \<Rightarrow> 'a option" where
  "greedy_plus p k s =
     first_some (\<lambda>j. k (take j s) (drop j s)) (down_from (length (takeWhile p s)))"

text \<open>\<open>\]\<close> and then the end of the pattern: the result is the group and the unread text.\<close>

fun close_bracket :: "ustring \<Rightarrow> ustring \<Rightarrow> (ustring \<times> ustring) option" where
  "close_bracket g [] = None"
| "close_bracket g (c # r) = (if c = 93 then Some (g, r) else None)"

text \<open>\<open>([^\]]+)\]\<close>\<close>

definition name_then_close :: "ustring \<Rightarrow> (ustring \<times> ustring) option" where
  "name_then_close s = greedy_plus (\<lambda>c. c \<noteq> 93) close_bracket s"

text \<open>
  The pattern tried at one position where \<open>^\<close> holds.  The optional group is greedy:
  \<open>profile\s+\<close> is tried first, and the pattern without it only when that fails.
\<close>

definition profile_pattern :: "ustring \<Rightarrow> (ustring \<times> ustring) option" where
  "profile_pattern s =
     (case s of
        [] \<Rightarrow> None
      | c # r \<Rightarrow>
          if c \<noteq> 91 then None
          else (case (if prefix (lit ''profile'') r
                      then greedy_plus isspace (\<lambda>_ r1. name_then_close r1) (drop 7 r)
                      else None) of
                  Some m \<Rightarrow> Some m
                | None \<Rightarrow> name_then_close r))"

lemma first_some_SomeD:
  "first_some f xs = Some y \<Longrightarrow> \<exists>x \<in> set xs. f x = Some y"
  by (induction xs) (auto split: option.splits)

lemma in_down_from: "j \<in> set (down_from n) \<longleftrightarrow> 1 \<le> j \<and> j \<le> n"
proof (induction n)
  case 0
  show ?case by simp
next
  case (Suc n)
  have "j \<in> set (down_from (Suc n)) \<longleftrightarrow> j = Suc n \<or> j \<in> set (down_from n)"
    by simp
  also have "\<dots> \<longleftrightarrow> j = Suc n \<or> (1 \<le> j \<and> j \<le> n)"
    by (simp only: Suc.IH)
  also have "\<dots> \<longleftrightarrow> 1 \<le> j \<and> j \<le> Suc n"
    by arith
  finally show ?case .
qed

lemma greedy_plus_SomeD:
  assumes "greedy_plus p k s = Some y"
  shows "\<exists>j. 1 \<le> j \<and> j \<le> length (takeWhile p s) \<and> k (take j s) (drop j s) = Some y"
proof -
  from assms obtain j where "j \<in> set (down_from (length (takeWhile p s)))"
    and "k (take j s) (drop j s) = Some y"
    unfolding greedy_plus_def by (blast dest: first_some_SomeD)
  then show ?thesis by (auto simp: in_down_from)
qed

lemma close_bracket_shorter: "close_bracket g s = Some (g', r) \<Longrightarrow> length r < length s"
  by (cases s) (auto split: if_splits)

lemma name_then_close_shorter:
  assumes "name_then_close s = Some (g, r)"
  shows "length r < length s"
proof -
  from assms obtain j where "close_bracket (take j s) (drop j s) = Some (g, r)"
    unfolding name_then_close_def by (blast dest: greedy_plus_SomeD)
  then have "length r < length (drop j s)" by (rule close_bracket_shorter)
  then show ?thesis by simp
qed

lemma profile_pattern_shorter:
  assumes "profile_pattern s = Some (g, r)"
  shows "length r < length s"
proof (cases s)
  case Nil
  with assms show ?thesis by (simp add: profile_pattern_def)
next
  case (Cons c t)
  let ?alt = "if prefix (lit ''profile'') t
              then greedy_plus isspace (\<lambda>_ r1. name_then_close r1) (drop 7 t) else None"
  show ?thesis
  proof (cases ?alt)
    case None
    with assms Cons have "name_then_close t = Some (g, r)"
      by (simp add: profile_pattern_def split: if_splits)
    then have "length r < length t" by (rule name_then_close_shorter)
    with Cons show ?thesis by simp
  next
    case (Some m)
    with assms Cons have m: "m = (g, r)"
      by (simp add: profile_pattern_def split: if_splits)
    from Some m have "greedy_plus isspace (\<lambda>_ r1. name_then_close r1) (drop 7 t) = Some (g, r)"
      by (simp split: if_splits)
    then obtain j where "name_then_close (drop j (drop 7 t)) = Some (g, r)"
      by (blast dest: greedy_plus_SomeD)
    then have "length r < length (drop j (drop 7 t))" by (rule name_then_close_shorter)
    with Cons show ?thesis by simp
  qed
qed

text \<open>
  \<open>re.findall(profile_pattern, content, re.MULTILINE)\<close>: the scan from left to right.
  The flag says whether \<open>^\<close> holds at the current position: at the start of the text and
  right after a line feed.  After a match the scan goes on behind its \<open>]\<close>, where \<open>^\<close>
  does not hold.  The result lists the group of each match.
\<close>

function findall :: "bool \<Rightarrow> ustring \<Rightarrow> ustring list" where
  "findall bol [] = []"
| "findall bol (c # s) =
     (case (if bol then profile_pattern (c # s) else None) of
        Some (g, rest) \<Rightarrow> g # findall False rest
      | None \<Rightarrow> findall (c = 10) s)"
  by pat_completeness auto
termination
proof (relation "measure (\<lambda>(bol, s). length s)")
  fix bol :: bool and c :: nat and s x2 x y
  assume "(if bol then profile_pattern (c # s) else None) = Some x2" and "(x, y) = x2"
  then have "profile_pattern (c # s) = Some (x, y)" by (simp split: if_splits)
  then have "length y < length (c # s)" by (rule profile_pattern_shorter)
  then show "((False, y), (bol, c # s)) \<in> measure (\<lambda>(bol, s). length s)" by simp
qed simp_all

section \<open>The world the scripts run in\<close>

text \<open>
  A CSV file is held as the rows \<open>csv.reader\<close> yields for it and \<open>csv.writer\<close> writes;
  a row is its list of fields.  The files are a map from paths to rows: a file that
  exists can be read and removed, and any path can be written.  A dict of strings is an
  association list in insertion order.
\<close>

type_synonym row = "ustring list"
type_synonym env = "(ustring \<times> ustring) list"
type_synonym fs = "ustring \<rightharpoonup> row list"

text \<open>
  \<open>~/.aws/config\<close>: absent, present but failing in \<open>open\<close> or \<open>read\<close>, or present with
  the text \<open>f.read()\<close> returns.
\<close>

datatype config_file = Missing | Unreadable | Content ustring

text \<open>How \<open>subprocess.run(..., timeout=300)\<close> ends: return code, stdout and stderr of
  the child, the timeout, or any other exception.\<close>

datatype proc_result =
    CompletedProcess int ustring ustring
  | TimeoutExpired
  | OtherException

text \<open>
  The scanner is outside the repository: any function from the number of earlier
  invocations, the command line, the child's environment and the files to a result and
  the files it leaves.
\<close>

type_synonym scanner = "nat \<Rightarrow> ustring list \<Rightarrow> env \<Rightarrow> fs \<Rightarrow> proc_result \<times> fs"

text \<open>
  One constructor per \<open>print\<close> of the scripts, with the values it formats, grouped by
  the part of the script that prints.  \<open>Rule\<close> is the line of 80 equals signs and
  \<open>BlankRule\<close> the same after an empty line.
\<close>

datatype discovery_msg =
    MsgConfigNotFound
  | MsgConfigReadError

datatype scan_msg =
    MsgProcessingProfile ustring
  | MsgSuccess ustring
  | MsgOutputLabel
  | MsgStdout ustring
  | MsgCsvNotFound ustring
  | MsgErrorProcessing ustring
  | MsgStderr ustring
  | MsgTimeout ustring
  | MsgException ustring

datatype resolve_msg =
    MsgNeedEndDate
  | MsgNeedStartDate
  | MsgUsingSpecified "ustring list"
  | MsgFound nat "ustring list"
  | MsgNoProfiles

datatype config_msg =
    MsgConfiguration
  | MsgRegion ustring
  | MsgOutputFile ustring
  | MsgBaseLogFileName ustring
  | MsgDateRange ustring ustring
  | MsgDateRangeDefault
  | MsgProfilesToProcess "ustring list"

datatype dry_msg =
    MsgDryRun nat
  | MsgDryRunProfile ustring
  | MsgDryRunProfileTo ustring ustring
  | MsgDryRunCombined ustring

datatype loop_msg =
    MsgStarting nat
  | MsgIndex nat nat ustring
  | MsgFailedToProcess ustring

datatype summary_msg =
    MsgScanCompleted
  | MsgTotal nat
  | MsgSuccessful nat
  | MsgFailed nat
  | MsgSuccessfulProfiles
  | MsgFailedProfiles
  | MsgProfile ustring
  | MsgProfileTo ustring ustring
  | MsgCombinedCsvFile ustring
  | MsgAllCsvGenerated

datatype combine_msg =
    MsgNoData
  | MsgNoValidHeaders
  | MsgCombinedWritten ustring

datatype msg =
    Rule
  | BlankRule
  | Discovery discovery_msg
  | Scan scan_msg
  | Resolve resolve_msg
  | Config config_msg
  | Dry dry_msg
  | Loop loop_msg
  | Summary summary_msg
  | Combine combine_msg

text \<open>What a run does to the outside, in order.\<close>

datatype event =
    Print msg
  | ConfigExists
  | ConfigOpen
  | Spawn "ustring list" env
  | PathExists ustring
  | ReadFile ustring
  | RemoveFile ustring
  | WriteFile ustring "row list"

text \<open>
  The state of the process.  Dict objects live in a store, by address, so that the copy
  made by \<open>os.environ.copy()\<close> and the mapping \<open>os.environ\<close> itself are two objects;
  \<open>os_environ\<close> is the address of the latter.
\<close>

record state =
  config :: config_file
  executable :: ustring
  dicts :: "nat \<Rightarrow> env"
  next_ref :: nat
  files :: fs
  calls :: nat
  trace :: "event list"

definition os_environ :: nat where
  "os_environ = 0"

definition emit :: "event \<Rightarrow> state \<Rightarrow> state" where
  "emit e st = st\<lparr>trace := trace st @ [e]\<rparr>"

definition print :: "msg \<Rightarrow> state \<Rightarrow> state" where
  "print m st = emit (Print m) st"

section \<open>Profile discovery\<close>

text \<open>The loop over the matches, appending to \<open>profiles\<close>.\<close>

fun collect_profiles :: "ustring list \<Rightarrow> ustring list \<Rightarrow> ustring list" where
  "collect_profiles [] profiles = profiles"
| "collect_profiles (m # ms) profiles =
     collect_profiles ms
       (if strip m \<noteq> [] \<and> strip m \<noteq> lit ''default'' then profiles @ [strip m] else profiles)"

text \<open>
  \<open>get_aws_profiles\<close>.  \<open>Inl 1\<close> is \<open>sys.exit(1)\<close>; the exception handler around
  \<open>open\<close> and \<open>read\<close> exits the same way.
\<close>

definition get_aws_profiles :: "state \<Rightarrow> (int + ustring list) \<times> state" where
  "get_aws_profiles st0 =
     (let st = emit ConfigExists st0 in
      case config st of
        Missing \<Rightarrow> (Inl 1, print (Discovery MsgConfigNotFound) st)
      | Unreadable \<Rightarrow> (Inl 1, print (Discovery MsgConfigReadError) (emit ConfigOpen st))
      | Content content \<Rightarrow>
          (let st = emit ConfigOpen st;
               matches = findall True content;
               profiles = collect_profiles matches [];
               profiles = (if sublist (lit ''[default]'') content
                           then profiles @ [lit ''default''] else profiles)
           in (Inr profiles, st)))"

section \<open>Running the scanner\<close>

text \<open>The dict operations the scripts use, on the store.\<close>

definition dict_copy :: "nat \<Rightarrow> state \<Rightarrow> nat \<times> state" where
  "dict_copy r st =
     (next_ref st,
      st\<lparr>dicts := (dicts st)(next_ref st := dicts st r), next_ref := Suc (next_ref st)\<rparr>)"

definition dict_setitem :: "nat \<Rightarrow> ustring \<Rightarrow> ustring \<Rightarrow> state \<Rightarrow> state" where
  "dict_setitem r k v st = st\<lparr>dicts := (dicts st)(r := AList.update k v (dicts st r))\<rparr>"

text \<open>
  \<open>subprocess.run(cmd, env=env, ..., timeout=300)\<close>: the child gets the contents of the
  dict at \<open>env\<close>; what it does is the scanner's answer.
\<close>

definition subprocess_run :: "scanner \<Rightarrow> ustring list \<Rightarrow> nat \<Rightarrow> state \<Rightarrow> proc_result \<times> state" where
  "subprocess_run sc cmd env st =
     (case sc (calls st) cmd (dicts st env) (files st) of
        (result, fls) \<Rightarrow>
          (result, (emit (Spawn cmd (dicts st env)) st)\<lparr>files := fls, calls := Suc (calls st)\<rparr>))"

definition prints :: "msg list \<Rightarrow> state \<Rightarrow> state" where
  "prints ms st = fold print ms st"

text \<open>Python's truth value of an optional string argument: set and not empty.\<close>

fun truthy :: "ustring option \<Rightarrow> bool" where
  "truthy None = False"
| "truthy (Some s) = (s \<noteq> [])"

text \<open>The command line, built the same way by both scripts.\<close>

definition scanner_cmd ::
  "state \<Rightarrow> ustring \<Rightarrow> ustring \<Rightarrow> ustring option \<Rightarrow> ustring option \<Rightarrow> ustring list" where
  "scanner_cmd st region log_file start_date end_date =
     [executable st, lit ''deployment-scanner.py'', lit ''--region'', region,
      lit ''--log-file-name'', log_file]
     @ (case start_date of
          Some d \<Rightarrow> if truthy start_date then [lit ''--start-date'', d] else []
        | None \<Rightarrow> [])
     @ (case end_date of
          Some d \<Rightarrow> if truthy end_date then [lit ''--end-date'', d] else []
        | None \<Rightarrow> [])"

text \<open>An exception that leaves a function (none of the two below lets one out).\<close>

datatype exn = Exception

text \<open>
  \<open>run_deployment_scanner\<close> of \<open>run-multi-account-scan.py\<close>.  It returns nothing, and
  each handler ends by falling through to the end of the function.
\<close>

definition run_deployment_scanner ::
  "scanner \<Rightarrow> ustring \<Rightarrow> ustring \<Rightarrow> ustring option \<Rightarrow> ustring option \<Rightarrow> ustring \<Rightarrow>
   state \<Rightarrow> (exn + unit) \<times> state" where
  "run_deployment_scanner sc profile region start_date end_date log_file_name st0 =
     (let st = prints [BlankRule, Scan (MsgProcessingProfile profile), Rule] st0;
          cmd = scanner_cmd st region (log_file_name @ lit ''_'' @ profile)
                  start_date end_date;
          (env, st) = dict_copy os_environ st;
          st = dict_setitem env (lit ''AWS_PROFILE'') profile st;
          (result, st) = subprocess_run sc cmd env st
      in case result of
           CompletedProcess returncode out err \<Rightarrow>
             if returncode = 0 then
               (let st = print (Scan (MsgSuccess profile)) st;
                    st = (if out \<noteq> [] then prints [Scan MsgOutputLabel, Scan (MsgStdout out)] st
                          else st)
                in (Inr (), st))
             else (Inr (), prints [Scan (MsgErrorProcessing profile), Scan (MsgStderr err)] st)
         | TimeoutExpired \<Rightarrow> (Inr (), print (Scan (MsgTimeout profile)) st)
         | OtherException \<Rightarrow> (Inr (), print (Scan (MsgException profile)) st))"

text \<open>
  \<open>run_deployment_scanner_and_parse_csv\<close> of \<open>run-multi-account-scan-single-csv.py\<close>:
  the rows of \<open>temp_log_file.csv\<close> after a return code 0 when that file exists, which is
  then removed; the empty list in every other case.
\<close>

definition run_deployment_scanner_and_parse_csv ::
  "scanner \<Rightarrow> ustring \<Rightarrow> ustring \<Rightarrow> ustring option \<Rightarrow> ustring option \<Rightarrow> ustring \<Rightarrow>
   state \<Rightarrow> (exn + row list) \<times> state" where
  "run_deployment_scanner_and_parse_csv sc profile region start_date end_date temp_log_file st0 =
     (let st = prints [BlankRule, Scan (MsgProcessingProfile profile), Rule] st0;
          cmd = scanner_cmd st region temp_log_file start_date end_date;
          (env, st) = dict_copy os_environ st;
          st = dict_setitem env (lit ''AWS_PROFILE'') profile st;
          (result, st) = subprocess_run sc cmd env st
      in case result of
           CompletedProcess returncode out err \<Rightarrow>
             if returncode = 0 then
               (let st = print (Scan (MsgSuccess profile)) st;
                    st = (if out \<noteq> [] then prints [Scan MsgOutputLabel, Scan (MsgStdout out)] st
                          else st);
                    csv_file = temp_log_file @ lit ''.csv'';
                    st = emit (PathExists csv_file) st
                in case files st csv_file of
                     Some rows \<Rightarrow>
                       (let st = emit (ReadFile csv_file) st;
                            st = (emit (RemoveFile csv_file) st)\<lparr>files := (files st)(csv_file := None)\<rparr>
                        in (Inr rows, st))
                   | None \<Rightarrow> (Inr [], print (Scan (MsgCsvNotFound profile)) st))
             else (Inr [], prints [Scan (MsgErrorProcessing profile), Scan (MsgStderr err)] st)
         | TimeoutExpired \<Rightarrow> (Inr [], print (Scan (MsgTimeout profile)) st)
         | OtherException \<Rightarrow> (Inr [], print (Scan (MsgException profile)) st))"

section \<open>The combined CSV\<close>

text \<open>The first loop of \<open>write_combined_csv\<close>: the header.\<close>

fun first_header :: "row list list \<Rightarrow> row option" where
  "first_header [] = None"
| "first_header (data # all_data) =
     (if data \<noteq> [] \<and> 0 < length data then Some (data ! 0) else first_header all_data)"

text \<open>The two nested loops that write the data rows; \<open>out\<close> is the file written so far.\<close>

fun write_rows :: "row list \<Rightarrow> row list \<Rightarrow> row list" where
  "write_rows [] out = out"
| "write_rows (r # rs) out = write_rows rs (out @ [r])"

fun write_data :: "row list list \<Rightarrow> row list \<Rightarrow> row list" where
  "write_data [] out = out"
| "write_data (data # all_data) out =
     write_data all_data
       (if data \<noteq> [] \<and> 1 < length data then write_rows (drop 1 data) out else out)"

text \<open>\<open>not headers\<close> holds for \<open>None\<close> and for a row without fields.\<close>

definition write_combined_csv :: "row list list \<Rightarrow> ustring \<Rightarrow> state \<Rightarrow> state" where
  "write_combined_csv all_data output_file st =
     (if all_data = [] then print (Combine MsgNoData) st
      else case first_header all_data of
             None \<Rightarrow> print (Combine MsgNoValidHeaders) st
           | Some headers \<Rightarrow>
               if headers = [] then print (Combine MsgNoValidHeaders) st
               else (let rows = write_data all_data (write_rows [headers] []);
                         st = (emit (WriteFile output_file rows) st)
                                \<lparr>files := (files st)(output_file \<mapsto> rows)\<rparr>
                     in print (Combine (MsgCombinedWritten output_file)) st))"

section \<open>The command line drivers\<close>

text \<open>
  The parsed arguments: the options both scripts share, then \<open>--output-file\<close> of the
  single-CSV script and \<open>--log-file-name\<close> of the per-profile script.  An optional
  argument that was not given is \<open>None\<close>.
\<close>

record args =
  region :: ustring
  start_date :: "ustring option"
  end_date :: "ustring option"
  profiles :: "ustring option"
  dry_run :: bool

record csv_args = args +
  output_file :: ustring

record scan_args = args +
  log_file_name :: ustring

text \<open>The date check at the head of both \<open>main\<close> functions; \<open>Some 1\<close> is \<open>sys.exit(1)\<close>.\<close>

definition validate_dates :: "'a args_scheme \<Rightarrow> state \<Rightarrow> int option \<times> state" where
  "validate_dates a st =
     (if start_date a \<noteq> None \<and> end_date a = None
      then (Some 1, print (Resolve MsgNeedEndDate) st)
      else if start_date a = None \<and> end_date a \<noteq> None
      then (Some 1, print (Resolve MsgNeedStartDate) st)
      else (None, st))"

text \<open>Profiles from \<open>--profiles\<close> or from the configuration file, in both scripts.\<close>

definition resolve_profiles :: "'a args_scheme \<Rightarrow> state \<Rightarrow> (int + ustring list) \<times> state" where
  "resolve_profiles a st0 =
     (case (if truthy (profiles a)
            then (let profiles_to_process = map strip (split_comma (the (profiles a)))
                  in (Inr profiles_to_process,
                      print (Resolve (MsgUsingSpecified profiles_to_process)) st0))
            else (case get_aws_profiles st0 of
                    (Inl code, st) \<Rightarrow> (Inl code, st)
                  | (Inr all_profiles, st) \<Rightarrow>
                      (Inr all_profiles,
                       print (Resolve (MsgFound (length all_profiles) all_profiles)) st))) of
        (Inl code, st) \<Rightarrow> (Inl code, st)
      | (Inr profiles_to_process, st) \<Rightarrow>
          if profiles_to_process = [] then (Inl 1, print (Resolve MsgNoProfiles) st)
          else (Inr profiles_to_process, st))"

definition date_range_msg :: "'a args_scheme \<Rightarrow> msg" where
  "date_range_msg a =
     (if truthy (start_date a) \<and> truthy (end_date a)
      then Config (MsgDateRange (the (start_date a)) (the (end_date a)))
      else Config MsgDateRangeDefault)"

text \<open>The lists the loops of \<open>main\<close> append to.\<close>

record tally =
  successful_profiles :: "ustring list"
  failed_profiles :: "ustring list"

record csv_tally = tally +
  all_csv_data :: "row list list"

subsection \<open>\<open>run-multi-account-scan-single-csv.py\<close>\<close>

text \<open>The body of the loop over \<open>enumerate(profiles_to_process, 1)\<close>.\<close>

definition process_profile_csv ::
  "scanner \<Rightarrow> csv_args \<Rightarrow> nat \<Rightarrow> nat \<times> ustring \<Rightarrow> csv_tally \<times> state \<Rightarrow> csv_tally \<times> state" where
  "process_profile_csv sc a n ip ts =
     (case (ip, ts) of ((i, profile), (t, st0)) \<Rightarrow>
        (let st = print (Loop (MsgIndex i n profile)) st0;
             temp_log_file = lit ''temp_'' @ profile
         in case run_deployment_scanner_and_parse_csv sc profile (region a) (start_date a)
                   (end_date a) temp_log_file st of
              (Inr csv_data, st) \<Rightarrow>
                if csv_data \<noteq> []
                then (t\<lparr>successful_profiles := successful_profiles t @ [profile],
                        all_csv_data := all_csv_data t @ [csv_data]\<rparr>, st)
                else (t\<lparr>failed_profiles := failed_profiles t @ [profile]\<rparr>, st)
            | (Inl e, st) \<Rightarrow>
                (t\<lparr>failed_profiles := failed_profiles t @ [profile]\<rparr>,
                 print (Loop (MsgFailedToProcess profile)) st)))"

definition process_profiles_csv ::
  "scanner \<Rightarrow> csv_args \<Rightarrow> ustring list \<Rightarrow> state \<Rightarrow> csv_tally \<times> state" where
  "process_profiles_csv sc a profiles_to_process st =
     fold (process_profile_csv sc a (length profiles_to_process))
       (enumerate 1 profiles_to_process)
       (\<lparr>successful_profiles = [], failed_profiles = [], all_csv_data = []\<rparr>, st)"

definition summary_csv :: "csv_args \<Rightarrow> ustring list \<Rightarrow> csv_tally \<Rightarrow> state \<Rightarrow> state" where
  "summary_csv a profiles_to_process t st0 =
     (let st = prints [BlankRule, Summary MsgScanCompleted, Rule,
                       Summary (MsgTotal (length profiles_to_process)),
                       Summary (MsgSuccessful (length (successful_profiles t))),
                       Summary (MsgFailed (length (failed_profiles t)))] st0;
          st = (if successful_profiles t \<noteq> []
                then prints (Summary MsgSuccessfulProfiles #
                             map (\<lambda>profile. Summary (MsgProfile profile)) (successful_profiles t)) st
                else st);
          st = (if failed_profiles t \<noteq> []
                then prints (Summary MsgFailedProfiles #
                             map (\<lambda>profile. Summary (MsgProfile profile)) (failed_profiles t)) st
                else st)
      in print (Summary (MsgCombinedCsvFile (output_file a))) st)"

text \<open>\<open>main\<close>; the first component is the exit status of the process.\<close>

definition main_single_csv :: "scanner \<Rightarrow> csv_args \<Rightarrow> state \<Rightarrow> int \<times> state" where
  "main_single_csv sc a st0 =
     (case validate_dates a st0 of
        (Some code, st) \<Rightarrow> (code, st)
      | (None, st) \<Rightarrow>
          (case resolve_profiles a st of
             (Inl code, st) \<Rightarrow> (code, st)
           | (Inr profiles_to_process, st) \<Rightarrow>
               (let st = prints [Config MsgConfiguration, Config (MsgRegion (region a)),
                                 Config (MsgOutputFile (output_file a)), date_range_msg a,
                                 Config (MsgProfilesToProcess profiles_to_process)] st
                in if dry_run a
                   then (0, prints (Dry (MsgDryRun (length profiles_to_process)) #
                                    map (\<lambda>profile. Dry (MsgDryRunProfile profile)) profiles_to_process @
                                    [Dry (MsgDryRunCombined (output_file a))]) st)
                   else (let st = print (Loop (MsgStarting (length profiles_to_process))) st;
                             (t, st) = process_profiles_csv sc a profiles_to_process st;
                             st = (if all_csv_data t \<noteq> []
                                   then write_combined_csv (all_csv_data t) (output_file a) st
                                   else st)
                         in (0, summary_csv a profiles_to_process t st)))))"

subsection \<open>\<open>run-multi-account-scan.py\<close>\<close>

definition process_profile_scan ::
  "scanner \<Rightarrow> scan_args \<Rightarrow> nat \<Rightarrow> nat \<times> ustring \<Rightarrow> tally \<times> state \<Rightarrow> tally \<times> state" where
  "process_profile_scan sc a n ip ts =
     (case (ip, ts) of ((i, profile), (t, st0)) \<Rightarrow>
        (let st = print (Loop (MsgIndex i n profile)) st0
         in case run_deployment_scanner sc profile (region a) (start_date a) (end_date a)
                   (log_file_name a) st of
              (Inr u, st) \<Rightarrow>
                (t\<lparr>successful_profiles := successful_profiles t @ [profile]\<rparr>, st)
            | (Inl e, st) \<Rightarrow>
                (t\<lparr>failed_profiles := failed_profiles t @ [profile]\<rparr>,
                 print (Loop (MsgFailedToProcess profile)) st)))"

definition process_profiles_scan ::
  "scanner \<Rightarrow> scan_args \<Rightarrow> ustring list \<Rightarrow> state \<Rightarrow> tally \<times> state" where
  "process_profiles_scan sc a profiles_to_process st =
     fold (process_profile_scan sc a (length profiles_to_process))
       (enumerate 1 profiles_to_process)
       (\<lparr>successful_profiles = [], failed_profiles = []\<rparr>, st)"

definition log_file_of :: "scan_args \<Rightarrow> ustring \<Rightarrow> ustring" where
  "log_file_of a profile = log_file_name a @ lit ''_'' @ profile @ lit ''.csv''"

definition summary_scan :: "scan_args \<Rightarrow> ustring list \<Rightarrow> tally \<Rightarrow> state \<Rightarrow> state" where
  "summary_scan a profiles_to_process t st0 =
     (let st = prints [BlankRule, Summary MsgScanCompleted, Rule,
                       Summary (MsgTotal (length profiles_to_process)),
                       Summary (MsgSuccessful (length (successful_profiles t))),
                       Summary (MsgFailed (length (failed_profiles t)))] st0;
          st = (if successful_profiles t \<noteq> []
                then prints (Summary MsgSuccessfulProfiles #
                             map (\<lambda>profile. Summary (MsgProfileTo profile (log_file_of a profile)))
                               (successful_profiles t)) st
                else st);
          st = (if failed_profiles t \<noteq> []
                then prints (Summary MsgFailedProfiles #
                             map (\<lambda>profile. Summary (MsgProfile profile)) (failed_profiles t)) st
                else st)
      in print (Summary MsgAllCsvGenerated) st)"

definition main_scan :: "scanner \<Rightarrow> scan_args \<Rightarrow> state \<Rightarrow> int \<times> state" where
  "main_scan sc a st0 =
     (case validate_dates a st0 of
        (Some code, st) \<Rightarrow> (code, st)
      | (None, st) \<Rightarrow>
          (case resolve_profiles a st of
             (Inl code, st) \<Rightarrow> (code, st)
           | (Inr profiles_to_process, st) \<Rightarrow>
               (let st = prints [Config MsgConfiguration, Config (MsgRegion (region a)),
                                 Config (MsgBaseLogFileName (log_file_name a)), date_range_msg a,
                                 Config (MsgProfilesToProcess profiles_to_process)] st
                in if dry_run a
                   then (0, prints (Dry (MsgDryRun (length profiles_to_process)) #
                                    map (\<lambda>profile. Dry (MsgDryRunProfileTo profile (log_file_of a profile)))
                                      profiles_to_process) st)
                   else (let st = print (Loop (MsgStarting (length profiles_to_process))) st;
                             (t, st) = process_profiles_scan sc a profiles_to_process st
                         in (0, summary_scan a profiles_to_process t st)))))"

text \<open>The process as it starts: \<open>os.environ\<close> is the only dict, nothing has happened.\<close>

definition start :: "config_file \<Rightarrow> ustring \<Rightarrow> env \<Rightarrow> fs \<Rightarrow> state" where
  "start cfg exe environ fls =
     \<lparr>config = cfg, executable = exe, dicts = (\<lambda>_. environ), next_ref = Suc os_environ,
      files = fls, calls = 0, trace = []\<rparr>"

section \<open>What a run is observed to do\<close>

text \<open>
  Projections of the trace: the subprocess invocations with command line and child
  environment, the accesses to the configuration file, the events that act on the outside
  (an invocation, a file removed or written, a line of the final summary), and the lines
  of the final summary.
\<close>

fun spawn_of :: "event \<Rightarrow> (ustring list \<times> env) list" where
  "spawn_of (Spawn cmd env) = [(cmd, env)]"
| "spawn_of e = []"

definition spawns :: "event list \<Rightarrow> (ustring list \<times> env) list" where
  "spawns es = concat (map spawn_of es)"

fun is_config_event :: "event \<Rightarrow> bool" where
  "is_config_event ConfigExists = True"
| "is_config_event ConfigOpen = True"
| "is_config_event e = False"

definition config_events :: "event list \<Rightarrow> event list" where
  "config_events es = filter is_config_event es"

fun acts :: "event \<Rightarrow> bool" where
  "acts (Spawn cmd env) = True"
| "acts (RemoveFile f) = True"
| "acts (WriteFile f rows) = True"
| "acts (Print (Summary m)) = True"
| "acts e = False"

fun summary_of :: "event \<Rightarrow> summary_msg list" where
  "summary_of (Print (Summary m)) = [m]"
| "summary_of e = []"

text \<open>
  The environment a child gets for a profile: the contents of \<open>os.environ\<close> with
  \<open>AWS_PROFILE\<close> set.  The CSV file the single-CSV script expects for a profile.  The
  configuration lines both scripts print before they start.
\<close>

definition child_env :: "state \<Rightarrow> ustring \<Rightarrow> env" where
  "child_env st profile = AList.update (lit ''AWS_PROFILE'') profile (dicts st os_environ)"


definition config_lines_csv :: "csv_args \<Rightarrow> ustring list \<Rightarrow> msg list" where
  "config_lines_csv a ps =
     [Config MsgConfiguration, Config (MsgRegion (region a)),
      Config (MsgOutputFile (output_file a)), date_range_msg a,
      Config (MsgProfilesToProcess ps)]"

definition config_lines_scan :: "scan_args \<Rightarrow> ustring list \<Rightarrow> msg list" where
  "config_lines_scan a ps =
     [Config MsgConfiguration, Config (MsgRegion (region a)),
      Config (MsgBaseLogFileName (log_file_name a)), date_range_msg a,
      Config (MsgProfilesToProcess ps)]"

section \<open>Example inputs\<close>

text \<open>
  Configuration texts (code point 10 is the line feed), scanners, argument records,
  start states and CSV rows used in the examples below.
\<close>

definition cfg_listing :: ustring where
  "cfg_listing = lit ''[a]'' @ [10] @ lit ''[profile b]'' @ [10] @ lit ''[default]''"

definition cfg_twice :: ustring where
  "cfg_twice = lit ''[a]'' @ [10] @ lit ''[a]''"

definition cfg_midline :: ustring where
  "cfg_midline = lit ''x = [default]''"

definition cfg_trailing :: ustring where
  "cfg_trailing = lit ''[a] trailing''"

text \<open>
  A scanner that ends the same way every time and touches no file, and one that exits
  with code 0 after writing the given rows to the file named by \<open>--log-file-name\<close>.
\<close>

definition always :: "proc_result \<Rightarrow> scanner" where
  "always r k cmd env fls = (r, fls)"


definition scan_args_ab :: scan_args where
  "scan_args_ab =
     \<lparr>region = lit ''us-east-1'', start_date = None, end_date = None,
      profiles = Some (lit ''a,b''), dry_run = False, log_file_name = lit ''out''\<rparr>"


definition csv_args_ab :: csv_args where
  "csv_args_ab =
     \<lparr>region = lit ''us-east-1'', start_date = None, end_date = None,
      profiles = Some (lit ''a,b''), dry_run = False, output_file = lit ''all.csv''\<rparr>"

definition csv_start_only :: csv_args where
  "csv_start_only =
     \<lparr>region = lit ''us-east-1'', start_date = Some (lit ''20240101''), end_date = None,
      profiles = None, dry_run = False, output_file = lit ''all.csv''\<rparr>"

definition scan_end_only :: scan_args where
  "scan_end_only =
     \<lparr>region = lit ''us-east-1'', start_date = None, end_date = Some (lit ''20240131''),
      profiles = None, dry_run = False, log_file_name = lit ''out''\<rparr>"

definition scan_both_dates :: scan_args where
  "scan_both_dates =
     \<lparr>region = lit ''us-east-1'', start_date = Some (lit ''20240101''),
      end_date = Some (lit ''20240131''),
      profiles = None, dry_run = False, log_file_name = lit ''out''\<rparr>"

definition scan_dry_abc :: scan_args where
  "scan_dry_abc =
     \<lparr>region = lit ''us-east-1'', start_date = None, end_date = None,
      profiles = Some (lit ''a, b ,c''), dry_run = True, log_file_name = lit ''out''\<rparr>"

definition csv_dry_abc :: csv_args where
  "csv_dry_abc =
     \<lparr>region = lit ''us-east-1'', start_date = None, end_date = None,
      profiles = Some (lit ''a, b ,c''), dry_run = True, output_file = lit ''all.csv''\<rparr>"


definition st_start :: state where
  "st_start = start Missing (lit ''python3'') [(lit ''PATH'', lit ''/bin'')] Map.empty"

definition st_cfg :: state where
  "st_cfg = start (Content cfg_listing) (lit ''python3'') [(lit ''PATH'', lit ''/bin'')] Map.empty"

definition hdr :: row where "hdr = [lit ''cluster'', lit ''cost'']"

definition r1 :: row where "r1 = [lit ''c1'', lit ''10'']"

definition r2 :: row where "r2 = [lit ''c2'', lit ''20'']"

definition r3 :: row where "r3 = [lit ''c3'', lit ''30'']"

section \<open>Facts about profile discovery\<close>

lemma collect_profiles_append:
  "collect_profiles ms ps =
     ps @ map strip (filter (\<lambda>m. strip m \<noteq> [] \<and> strip m \<noteq> lit ''default'') ms)"
  by (induction ms arbitrary: ps) simp_all

lemma dropWhile_rev_dropWhile:
  "dropWhile P (rev (dropWhile P (rev (dropWhile P s)))) = rev (dropWhile P (rev (dropWhile P s)))"
proof (cases "rev (dropWhile P (rev (dropWhile P s)))")
  case Nil
  then show ?thesis by (simp only: dropWhile.simps)
next
  case (Cons a as)
  let ?u = "dropWhile P s"
  have split: "?u = rev (dropWhile P (rev ?u)) @ rev (takeWhile P (rev ?u))"
    by (metis rev_append rev_rev_ident takeWhile_dropWhile_id)
  with Cons have "?u = a # as @ rev (takeWhile P (rev ?u))" by simp
  then have "hd ?u = a" and "?u \<noteq> []" by (metis list.sel(1), metis list.distinct(1))
  then have "\<not> P a" using hd_dropWhile by metis
  with Cons show ?thesis by simp
qed

lemma strip_strip: "strip (strip s) = strip s"
  by (simp add: strip_def dropWhile_rev_dropWhile)

lemma first_some_cong_set:
  "(\<And>x. x \<in> set xs \<Longrightarrow> f x = g x) \<Longrightarrow> first_some f xs = first_some g xs"
  by (induction xs) (auto split: option.splits)

lemma first_some_map_option:
  "first_some (\<lambda>x. map_option h (f x)) xs = map_option h (first_some f xs)"
  by (induction xs) (simp_all split: option.splits)

lemma name_then_close_append:
  assumes "93 \<notin> set n"
  shows "name_then_close (n @ 93 # t) = (if n = [] then None else Some (n, t))"
proof -
  have "\<And>x. x \<in> set n \<Longrightarrow> x \<noteq> 93"
    using assms by blast
  then have tw: "takeWhile (\<lambda>c. c \<noteq> 93) (n @ 93 # t) = n"
    by simp
  show ?thesis
  proof (cases "length n")
    case 0
    then show ?thesis by (simp add: name_then_close_def greedy_plus_def)
  next
    case (Suc k)
    then have "n \<noteq> []" by auto
    moreover have "name_then_close (n @ 93 # t) = Some (n, t)"
      unfolding name_then_close_def greedy_plus_def tw Suc 
      using Suc by simp
    ultimately show ?thesis by simp
  qed
qed

lemma prefix_append_ConsD:
  assumes "prefix p (n @ c # t)" and "c \<notin> set p"
  shows "prefix p n"
proof -
  from assms(1) consider "prefix p n" | us where "p = n @ us" and "prefix us (c # t)"
    by (auto simp: prefix_append)
  then show ?thesis
  proof cases
    case 1
    then show ?thesis .
  next
    case 2
    with assms(2) have "us = []" by (cases us) auto
    with 2 show ?thesis by simp
  qed
qed

lemma not_isspace_93: "\<not> isspace 93"
  by (simp add: isspace_def)

lemma takeWhile_isspace_append:
  "takeWhile isspace (m @ 93 # t) = takeWhile isspace m"
proof (cases "\<forall>x\<in>set m. isspace x")
  case True
  then have m: "takeWhile isspace m = m" by (simp add: takeWhile_eq_all_conv)
  from True have "takeWhile isspace (m @ 93 # t) = m @ takeWhile isspace (93 # t)"
    by (simp add: takeWhile_append)
  also have "\<dots> = m" by (simp add: not_isspace_93)
  finally show ?thesis by (simp only: m)
next
  case False
  have "takeWhile isspace (m @ 93 # t) =
        (if \<forall>x\<in>set m. isspace x then m @ takeWhile isspace (93 # t)
         else takeWhile isspace m)"
    by (rule takeWhile_append)
  then show ?thesis by (simp only: False if_False)
qed

lemma greedy_space_then_name:
  assumes "93 \<notin> set m"
  shows "greedy_plus isspace (\<lambda>_ r1. name_then_close r1) (m @ 93 # t) =
         map_option (\<lambda>g. (g, t))
           (first_some (\<lambda>j. if drop j m = [] then None else Some (drop j m))
              (down_from (length (takeWhile isspace m))))"
proof -
  let ?w = "length (takeWhile isspace m)"
  have w: "?w \<le> length m" by (rule length_takeWhile_le)
  have step: "name_then_close (drop j (m @ 93 # t)) =
              map_option (\<lambda>g. (g, t)) (if drop j m = [] then None else Some (drop j m))"
    if "j \<in> set (down_from ?w)" for j
  proof -
    from that w have "j \<le> length m" by (simp add: in_down_from)
    then have "drop j (m @ 93 # t) = drop j m @ 93 # t" by simp
    moreover from assms have "93 \<notin> set (drop j m)" by (blast dest: in_set_dropD)
    ultimately show ?thesis by (simp add: name_then_close_append)
  qed
  have "greedy_plus isspace (\<lambda>_ r1. name_then_close r1) (m @ 93 # t) =
        first_some (\<lambda>j. name_then_close (drop j (m @ 93 # t))) (down_from ?w)"
    by (simp add: greedy_plus_def takeWhile_isspace_append)
  also have "\<dots> = first_some (\<lambda>j. map_option (\<lambda>g. (g, t))
                 (if drop j m = [] then None else Some (drop j m))) (down_from ?w)"
    by (rule first_some_cong_set) (rule step)
  also have "\<dots> = map_option (\<lambda>g. (g, t))
        (first_some (\<lambda>j. if drop j m = [] then None else Some (drop j m)) (down_from ?w))"
    by (rule first_some_map_option)
  finally show ?thesis .
qed

lemma lit_profile: "lit ''profile'' = [112, 114, 111, 102, 105, 108, 101]"
  by (simp add: lit_def)

lemma profile_pattern_section:
  assumes "93 \<notin> set n" and "n \<noteq> []"
  shows "\<exists>g. \<forall>t. profile_pattern (91 # n @ 93 # t) = Some (g, t)"
proof (cases "prefix (lit ''profile'') n")
  case False
  then have "\<not> prefix (lit ''profile'') (n @ 93 # t)" for t
    by (auto dest!: prefix_append_ConsD simp: lit_profile)
  with assms have "profile_pattern (91 # n @ 93 # t) = Some (n, t)" for t
    by (simp add: profile_pattern_def name_then_close_append)
  then show ?thesis by blast
next
  case True
  then have len: "7 \<le> length n"
    by (auto simp: prefix_def lit_profile)
  let ?m = "drop 7 n"
  let ?alt = "first_some (\<lambda>j. if drop j ?m = [] then None else Some (drop j ?m))
                (down_from (length (takeWhile isspace ?m)))"
  from assms(1) have m: "93 \<notin> set ?m" by (blast dest: in_set_dropD)
  from True have pre: "prefix (lit ''profile'') (n @ 93 # t)" for t
    by (simp add: prefix_prefix)
  from len have dr: "drop 7 (n @ 93 # t) = ?m @ 93 # t" for t by simp
  have eq: "profile_pattern (91 # n @ 93 # t) =
        (case map_option (\<lambda>g. (g, t)) ?alt of Some r \<Rightarrow> Some r | None \<Rightarrow> Some (n, t))" for t
  proof -
    have "profile_pattern (91 # n @ 93 # t) =
          (case greedy_plus isspace (\<lambda>_ r1. name_then_close r1) (drop 7 (n @ 93 # t)) of
             Some r \<Rightarrow> Some r | None \<Rightarrow> name_then_close (n @ 93 # t))"
      using pre [of t] by (simp add: profile_pattern_def del: drop_append)
    also have "\<dots> = (case map_option (\<lambda>g. (g, t)) ?alt of
             Some r \<Rightarrow> Some r | None \<Rightarrow> name_then_close (n @ 93 # t))"
      by (simp only: dr greedy_space_then_name [OF m])
    also have "name_then_close (n @ 93 # t) = Some (n, t)"
      using assms by (simp add: name_then_close_append)
    finally show ?thesis .
  qed
  show ?thesis
  proof (cases ?alt)
    case None
    with eq have "profile_pattern (91 # n @ 93 # t) = Some (n, t)" for t by simp
    then show ?thesis by blast
  next
    case (Some g)
    with eq have "profile_pattern (91 # n @ 93 # t) = Some (g, t)" for t by simp
    then show ?thesis by blast
  qed
qed

lemma findall_section:
  assumes "93 \<notin> set n" and "n \<noteq> []"
  shows "\<exists>g. \<forall>t. findall True (91 # n @ 93 # t) = g # findall False t"
proof -
  from profile_pattern_section [OF assms] obtain g
    where "\<forall>t. profile_pattern (91 # n @ 93 # t) = Some (g, t)" ..
  then have "\<forall>t. findall True (91 # n @ 93 # t) = g # findall False t" by simp
  then show ?thesis ..
qed

lemma get_aws_profiles_Content:
  assumes "config st = Content content"
  shows "fst (get_aws_profiles st) =
         Inr (collect_profiles (findall True content) [] @
              (if sublist (lit ''[default]'') content then [lit ''default''] else []))"
  using assms by (simp add: get_aws_profiles_def emit_def Let_def)

lemma collect_profiles_trimmed:
  assumes "p \<in> set (collect_profiles ms [])"
  shows "strip p = p \<and> p \<noteq> [] \<and> p \<noteq> lit ''default''"
  using assms by (auto simp: collect_profiles_append strip_strip)

lemmas eval_pattern =
  lit_def isspace_def strip_def profile_pattern_def name_then_close_def greedy_plus_def

lemma default_mem:
  assumes "config st = Content content"
  shows "\<exists>ps. fst (get_aws_profiles st) = Inr ps \<and>
          (lit ''default'' \<in> set ps \<longleftrightarrow> (\<exists>pre suf. content = pre @ lit ''[default]'' @ suf))"
proof -
  have "lit ''default'' \<notin> set (collect_profiles (findall True content) [])"
    using collect_profiles_trimmed by blast
  then show ?thesis
    by (simp add: get_aws_profiles_Content [OF assms] sublist_def)
qed

lemma midline_default:
  "fst (get_aws_profiles (start (Content cfg_midline) [] [] Map.empty)) = Inr ([] @ [lit ''default''])"
proof -
  have c: "config (start (Content cfg_midline) [] [] Map.empty) = Content cfg_midline"
    by (simp add: start_def)
  have f: "collect_profiles (findall True cfg_midline) [] = []"
    by (simp add: cfg_midline_def eval_pattern)
  have s: "sublist (lit ''[default]'') cfg_midline"
    by (simp add: cfg_midline_def lit_def sublist_code)
  show ?thesis
    using get_aws_profiles_Content [OF c] by (simp only: f s if_True)
qed

lemma trailing_text:
  "fst (get_aws_profiles (start (Content cfg_trailing) [] [] Map.empty)) = Inr ([lit ''a''] @ [])"
proof -
  have c: "config (start (Content cfg_trailing) [] [] Map.empty) = Content cfg_trailing"
    by (simp add: start_def)
  have f: "collect_profiles (findall True cfg_trailing) [] = [lit ''a'']"
    by (simp add: cfg_trailing_def eval_pattern)
  have s: "\<not> sublist (lit ''[default]'') cfg_trailing"
    by (simp add: cfg_trailing_def lit_def sublist_code)
  show ?thesis
    using get_aws_profiles_Content [OF c] by (simp only: f s if_False)
qed

lemma split_comma_not_Nil: "split_comma s \<noteq> []"
  by (induction s) (simp_all split: list.splits)


lemma tokens_abc: "map strip (split_comma (lit ''a, b ,c'')) = [lit ''a'', lit ''b'', lit ''c'']"
  by (simp add: lit_def strip_def isspace_def)

section \<open>Facts about the state\<close>

lemma prints_fields:
  "config (prints ms st) = config st"
  "executable (prints ms st) = executable st"
  "dicts (prints ms st) = dicts st"
  "next_ref (prints ms st) = next_ref st"
  "files (prints ms st) = files st"
  "calls (prints ms st) = calls st"
  "trace (prints ms st) = trace st @ map Print ms"
  by (induction ms arbitrary: st; simp add: prints_def print_def emit_def)+

lemma print_fields:
  "config (print m st) = config st"
  "executable (print m st) = executable st"
  "dicts (print m st) = dicts st"
  "next_ref (print m st) = next_ref st"
  "files (print m st) = files st"
  "calls (print m st) = calls st"
  "trace (print m st) = trace st @ [Print m]"
  by (simp_all add: print_def emit_def)

lemma emit_fields:
  "config (emit e st) = config st"
  "executable (emit e st) = executable st"
  "dicts (emit e st) = dicts st"
  "next_ref (emit e st) = next_ref st"
  "files (emit e st) = files st"
  "calls (emit e st) = calls st"
  "trace (emit e st) = trace st @ [e]"
  by (simp_all add: emit_def)

lemmas state_fields = prints_fields print_fields emit_fields

lemma spawns_simps:
  "spawns [] = []"
  "spawns (es @ es') = spawns es @ spawns es'"
  "spawns (Print m # es) = spawns es"
  "spawns (Spawn cmd env # es) = (cmd, env) # spawns es"
  "spawns (PathExists f # es) = spawns es"
  "spawns (ReadFile f # es) = spawns es"
  "spawns (RemoveFile f # es) = spawns es"
  "spawns (WriteFile f rows # es) = spawns es"
  "spawns (ConfigExists # es) = spawns es"
  "spawns (ConfigOpen # es) = spawns es"
  "spawns (map Print ms) = []"
  by (simp_all add: spawns_def)

lemma config_events_simps:
  "config_events [] = []"
  "config_events (es @ es') = config_events es @ config_events es'"
  "config_events (Print m # es) = config_events es"
  "config_events (Spawn cmd env # es) = config_events es"
  "config_events (PathExists f # es) = config_events es"
  "config_events (ReadFile f # es) = config_events es"
  "config_events (RemoveFile f # es) = config_events es"
  "config_events (WriteFile f rows # es) = config_events es"
  "config_events (ConfigExists # es) = ConfigExists # config_events es"
  "config_events (ConfigOpen # es) = ConfigOpen # config_events es"
  "config_events (map Print ms) = []"
  by (simp_all add: config_events_def)

lemma spawns_prints: "spawns (trace (prints ms st)) = spawns (trace st)"
  by (simp add: state_fields spawns_simps)

lemma config_events_prints: "config_events (trace (prints ms st)) = config_events (trace st)"
  by (simp add: state_fields config_events_simps)

lemma acts_prints:
  assumes "\<And>m. m \<in> set ms \<Longrightarrow> \<not> acts (Print m)"
  shows "filter acts (trace (prints ms st)) = filter acts (trace st)"
  using assms by (simp add: prints_fields)

lemma acts_date_range: "\<not> acts (Print (date_range_msg a))"
  by (simp add: date_range_msg_def)

lemma scanner_cmd_prints:
  "scanner_cmd (prints ms st) rg lf sd ed = scanner_cmd st rg lf sd ed"
  by (simp add: scanner_cmd_def prints_fields)

lemma scanner_cmd_print:
  "scanner_cmd (print m st) rg lf sd ed = scanner_cmd st rg lf sd ed"
  by (simp add: scanner_cmd_def print_fields)

section \<open>Facts about the combined CSV\<close>

lemma write_rows_append: "write_rows rs out = out @ rs"
  by (induction rs arbitrary: out) simp_all

lemma write_data_concat: "write_data all_data out = out @ concat (map (drop 1) all_data)"
proof (induction all_data arbitrary: out)
  case Nil
  show ?case by simp
next
  case (Cons d ds)
  have "\<not> (d \<noteq> [] \<and> 1 < length d) \<Longrightarrow> drop 1 d = []"
    by (cases d) auto
  then show ?case
    by (simp add: Cons.IH write_rows_append)
qed

lemma first_header_find:
  "first_header all_data = map_option hd (find (\<lambda>d. d \<noteq> []) all_data)"
  by (induction all_data) (simp_all add: hd_conv_nth)

lemma write_combined_csv_frame:
  "executable (write_combined_csv d f st) = executable st"
  "config (write_combined_csv d f st) = config st"
  "dicts (write_combined_csv d f st) = dicts st"
  "next_ref (write_combined_csv d f st) = next_ref st"
  "calls (write_combined_csv d f st) = calls st"
  "spawns (trace (write_combined_csv d f st)) = spawns (trace st)"
  "config_events (trace (write_combined_csv d f st)) = config_events (trace st)"
  by (simp_all add: write_combined_csv_def Let_def state_fields spawns_simps config_events_simps
       split: option.splits)

section \<open>Facts about one scanner invocation\<close>

lemma run_deployment_scanner_effect:
  "\<exists>st'. run_deployment_scanner sc profile rg sd ed lf st = (Inr (), st')
           \<and> config st' = config st \<and> executable st' = executable st
           \<and> (\<forall>r < next_ref st. dicts st' r = dicts st r)
           \<and> next_ref st' = Suc (next_ref st)
           \<and> calls st' = Suc (calls st)
           \<and> spawns (trace st') = spawns (trace st) @
                [(scanner_cmd st rg (lf @ lit ''_'' @ profile) sd ed, child_env st profile)]
           \<and> config_events (trace st') = config_events (trace st)"
  by (simp add: run_deployment_scanner_def Let_def dict_copy_def dict_setitem_def child_env_def
        subprocess_run_def scanner_cmd_prints state_fields spawns_simps config_events_simps
      split: prod.splits proc_result.splits)

lemma run_csv_effect:
  "\<exists>rows st'. run_deployment_scanner_and_parse_csv sc profile rg sd ed tlf st = (Inr rows, st')
           \<and> config st' = config st \<and> executable st' = executable st
           \<and> (\<forall>r < next_ref st. dicts st' r = dicts st r)
           \<and> next_ref st' = Suc (next_ref st)
           \<and> calls st' = Suc (calls st)
           \<and> spawns (trace st') = spawns (trace st) @
                [(scanner_cmd st rg tlf sd ed, child_env st profile)]
           \<and> config_events (trace st') = config_events (trace st)"
  by (simp add: run_deployment_scanner_and_parse_csv_def Let_def dict_copy_def dict_setitem_def
        child_env_def
        subprocess_run_def scanner_cmd_prints state_fields spawns_simps config_events_simps
      split: prod.splits proc_result.splits option.splits)


lemma process_profile_scan_effect:
  "\<exists>st'. process_profile_scan sc a n (i, p) (t, st) =
                 (t\<lparr>successful_profiles := successful_profiles t @ [p]\<rparr>, st')
           \<and> config st' = config st \<and> executable st' = executable st
           \<and> (\<forall>r < next_ref st. dicts st' r = dicts st r)
           \<and> next_ref st' = Suc (next_ref st)
           \<and> calls st' = Suc (calls st)
           \<and> spawns (trace st') = spawns (trace st) @
                [(scanner_cmd st (region a) (log_file_name a @ lit ''_'' @ p) (start_date a) (end_date a),
                  child_env st p)]
           \<and> config_events (trace st') = config_events (trace st)"
proof -
  let ?st1 = "print (Loop (MsgIndex i n p)) st"
  from run_deployment_scanner_effect [of sc p "region a" "start_date a" "end_date a"
      "log_file_name a" ?st1]
  obtain st' where r: "run_deployment_scanner sc p (region a) (start_date a) (end_date a)
       (log_file_name a) ?st1 = (Inr (), st')"
    and f: "config st' = config ?st1" "executable st' = executable ?st1"
      "\<forall>r < next_ref ?st1. dicts st' r = dicts ?st1 r" "next_ref st' = Suc (next_ref ?st1)"
      "calls st' = Suc (calls ?st1)"
      "spawns (trace st') = spawns (trace ?st1) @
                [(scanner_cmd ?st1 (region a) (log_file_name a @ lit ''_'' @ p) (start_date a) (end_date a),
                  child_env ?st1 p)]"
      "config_events (trace st') = config_events (trace ?st1)"
    by blast
  have "process_profile_scan sc a n (i, p) (t, st) =
          (t\<lparr>successful_profiles := successful_profiles t @ [p]\<rparr>, st')"
    by (simp add: process_profile_scan_def Let_def r)
  with f show ?thesis
    by (simp add: state_fields spawns_simps config_events_simps scanner_cmd_print child_env_def)
qed

lemma process_profile_csv_effect:
  "\<exists>t' st'. process_profile_csv sc a n (i, p) (t, st) = (t', st')
           \<and> config st' = config st \<and> executable st' = executable st
           \<and> (\<forall>r < next_ref st. dicts st' r = dicts st r)
           \<and> next_ref st' = Suc (next_ref st)
           \<and> calls st' = Suc (calls st)
           \<and> spawns (trace st') = spawns (trace st) @
                [(scanner_cmd st (region a) (lit ''temp_'' @ p) (start_date a) (end_date a),
                  child_env st p)]
           \<and> config_events (trace st') = config_events (trace st)"
proof -
  let ?st1 = "print (Loop (MsgIndex i n p)) st"
  from run_csv_effect [of sc p "region a" "start_date a" "end_date a" "lit ''temp_'' @ p" ?st1]
  obtain rows st' where r: "run_deployment_scanner_and_parse_csv sc p (region a) (start_date a)
       (end_date a) (lit ''temp_'' @ p) ?st1 = (Inr rows, st')"
    and f: "config st' = config ?st1" "executable st' = executable ?st1"
      "\<forall>r < next_ref ?st1. dicts st' r = dicts ?st1 r" "next_ref st' = Suc (next_ref ?st1)"
      "calls st' = Suc (calls ?st1)"
      "spawns (trace st') = spawns (trace ?st1) @
                [(scanner_cmd ?st1 (region a) (lit ''temp_'' @ p) (start_date a) (end_date a),
                  child_env ?st1 p)]"
      "config_events (trace st') = config_events (trace ?st1)"
    by blast
  have "\<exists>t'. process_profile_csv sc a n (i, p) (t, st) = (t', st')"
    by (simp add: process_profile_csv_def Let_def r)
  with f show ?thesis
    by (auto simp: state_fields spawns_simps config_events_simps scanner_cmd_print child_env_def)
qed



section \<open>Facts about the loops\<close>

lemma fold_scan_effect:
  "\<exists>st'. fold (process_profile_scan sc a n) (enumerate i ps) (t, st) =
                 (t\<lparr>successful_profiles := successful_profiles t @ ps\<rparr>, st')
           \<and> config st' = config st \<and> executable st' = executable st
           \<and> (\<forall>r < next_ref st. dicts st' r = dicts st r)
           \<and> next_ref st \<le> next_ref st'
           \<and> calls st' = calls st + length ps
           \<and> (os_environ < next_ref st \<longrightarrow>
                map snd (spawns (trace st')) =
                  map snd (spawns (trace st)) @ map (child_env st) ps)
           \<and> config_events (trace st') = config_events (trace st)"
proof (induction ps arbitrary: i t st)
  case Nil
  show ?case by simp
next
  case (Cons p ps)
  from process_profile_scan_effect [of sc a n i p t st]
  obtain st1 where s: "process_profile_scan sc a n (i, p) (t, st) =
                 (t\<lparr>successful_profiles := successful_profiles t @ [p]\<rparr>, st1)"
    and f: "config st1 = config st" "executable st1 = executable st"
      "\<forall>r < next_ref st. dicts st1 r = dicts st r" "next_ref st1 = Suc (next_ref st)"
      "calls st1 = Suc (calls st)"
      "spawns (trace st1) = spawns (trace st) @
                [(scanner_cmd st (region a) (log_file_name a @ lit ''_'' @ p) (start_date a) (end_date a),
                  child_env st p)]"
      "config_events (trace st1) = config_events (trace st)"
    by blast
  from Cons.IH [of "Suc i" "t\<lparr>successful_profiles := successful_profiles t @ [p]\<rparr>" st1]
  obtain st' where l: "fold (process_profile_scan sc a n) (enumerate (Suc i) ps)
        (t\<lparr>successful_profiles := successful_profiles t @ [p]\<rparr>, st1) =
        (t\<lparr>successful_profiles := successful_profiles t @ [p] @ ps\<rparr>, st')"
    and g: "config st' = config st1" "executable st' = executable st1"
      "\<forall>r < next_ref st1. dicts st' r = dicts st1 r" "next_ref st1 \<le> next_ref st'"
      "calls st' = calls st1 + length ps"
      "os_environ < next_ref st1 \<longrightarrow> map snd (spawns (trace st')) =
         map snd (spawns (trace st1)) @ map (child_env st1) ps"
      "config_events (trace st') = config_events (trace st1)"
    by auto
  have e: "child_env st1 = child_env st" if "os_environ < next_ref st"
    using that f(3) by (auto simp: child_env_def fun_eq_iff)
  have "fold (process_profile_scan sc a n) (enumerate i (p # ps)) (t, st) =
        (t\<lparr>successful_profiles := successful_profiles t @ p # ps\<rparr>, st')"
    by (simp add: s l)
  with f g e show ?case by simp
qed

lemma fold_csv_effect:
  "\<exists>t' st'. fold (process_profile_csv sc a n) (enumerate i ps) (t, st) = (t', st')
           \<and> config st' = config st \<and> executable st' = executable st
           \<and> (\<forall>r < next_ref st. dicts st' r = dicts st r)
           \<and> next_ref st \<le> next_ref st'
           \<and> calls st' = calls st + length ps
           \<and> (os_environ < next_ref st \<longrightarrow>
                map snd (spawns (trace st')) =
                  map snd (spawns (trace st)) @ map (child_env st) ps)
           \<and> config_events (trace st') = config_events (trace st)"
proof (induction ps arbitrary: i t st)
  case Nil
  show ?case by simp
next
  case (Cons p ps)
  from process_profile_csv_effect [of sc a n i p t st]
  obtain t1 st1 where s: "process_profile_csv sc a n (i, p) (t, st) = (t1, st1)"
    and f: "config st1 = config st" "executable st1 = executable st"
      "\<forall>r < next_ref st. dicts st1 r = dicts st r" "next_ref st1 = Suc (next_ref st)"
      "calls st1 = Suc (calls st)"
      "spawns (trace st1) = spawns (trace st) @
                [(scanner_cmd st (region a) (lit ''temp_'' @ p) (start_date a) (end_date a),
                  child_env st p)]"
      "config_events (trace st1) = config_events (trace st)"
    by blast
  from Cons.IH [of "Suc i" t1 st1]
  obtain t' st' where l: "fold (process_profile_csv sc a n) (enumerate (Suc i) ps) (t1, st1) =
        (t', st')"
    and g: "config st' = config st1" "executable st' = executable st1"
      "\<forall>r < next_ref st1. dicts st' r = dicts st1 r" "next_ref st1 \<le> next_ref st'"
      "calls st' = calls st1 + length ps"
      "os_environ < next_ref st1 \<longrightarrow> map snd (spawns (trace st')) =
         map snd (spawns (trace st1)) @ map (child_env st1) ps"
      "config_events (trace st') = config_events (trace st1)"
    by auto
  have e: "child_env st1 = child_env st" if "os_environ < next_ref st"
    using that f(3) by (auto simp: child_env_def fun_eq_iff)
  have "fold (process_profile_csv sc a n) (enumerate i (p # ps)) (t, st) = (t', st')"
    by (simp add: s l)
  with f g e show ?case by simp
qed



section \<open>Facts about the drivers\<close>

lemma validate_dates_pass:
  assumes "(start_date a = None) = (end_date a = None)"
  shows "validate_dates a st = (None, st)"
  using assms
  by (cases "start_date a"; cases "end_date a"; simp add: validate_dates_def)

lemma main_single_csv_bad_dates:
  assumes "(start_date a = None) \<noteq> (end_date a = None)"
  shows "main_single_csv sc a st =
           (1, print (Resolve (if end_date a = None then MsgNeedEndDate else MsgNeedStartDate)) st)"
  using assms
  by (cases "start_date a"; cases "end_date a"; simp add: main_single_csv_def validate_dates_def)

lemma main_scan_bad_dates:
  assumes "(start_date a = None) \<noteq> (end_date a = None)"
  shows "main_scan sc a st =
           (1, print (Resolve (if end_date a = None then MsgNeedEndDate else MsgNeedStartDate)) st)"
  using assms
  by (cases "start_date a"; cases "end_date a"; simp add: main_scan_def validate_dates_def)

lemma resolve_profiles_given:
  assumes "profiles a = Some p" and "p \<noteq> []"
  shows "resolve_profiles a st =
           (Inr (map strip (split_comma p)),
            print (Resolve (MsgUsingSpecified (map strip (split_comma p)))) st)"
  using assms by (simp add: resolve_profiles_def Let_def split_comma_not_Nil)

lemma get_aws_profiles_effect:
  assumes "get_aws_profiles st = (r, st')"
  shows "executable st' = executable st \<and> config st' = config st \<and> dicts st' = dicts st
         \<and> next_ref st' = next_ref st \<and> files st' = files st \<and> calls st' = calls st
         \<and> spawns (trace st') = spawns (trace st)
         \<and> filter acts (trace st') = filter acts (trace st)"
  using assms
  by (auto simp: get_aws_profiles_def Let_def state_fields spawns_simps
           split: config_file.splits)

lemma resolve_profiles_effect:
  assumes "resolve_profiles a st = (r, st')"
  shows "executable st' = executable st \<and> config st' = config st \<and> dicts st' = dicts st
         \<and> next_ref st' = next_ref st \<and> files st' = files st \<and> calls st' = calls st
         \<and> spawns (trace st') = spawns (trace st)
         \<and> filter acts (trace st') = filter acts (trace st)"
proof (cases "truthy (profiles a)")
  case True
  with assms show ?thesis
    by (auto simp: resolve_profiles_def Let_def state_fields spawns_simps split: if_splits)
next
  case False
  obtain r1 st1 where g: "get_aws_profiles st = (r1, st1)" by (cases "get_aws_profiles st")
  note e = get_aws_profiles_effect [OF g]
  from False g assms e show ?thesis
    by (auto simp: resolve_profiles_def state_fields spawns_simps split: sum.splits if_splits)
qed

lemma summary_csv_frame:
  "executable (summary_csv a ps t st) = executable st"
  "config (summary_csv a ps t st) = config st"
  "dicts (summary_csv a ps t st) = dicts st"
  "next_ref (summary_csv a ps t st) = next_ref st"
  "files (summary_csv a ps t st) = files st"
  "calls (summary_csv a ps t st) = calls st"
  "spawns (trace (summary_csv a ps t st)) = spawns (trace st)"
  "config_events (trace (summary_csv a ps t st)) = config_events (trace st)"
  by (simp_all add: summary_csv_def Let_def spawns_prints config_events_prints prints_fields(1-6)
        print_fields spawns_simps config_events_simps)

lemma summary_scan_frame:
  "executable (summary_scan a ps t st) = executable st"
  "config (summary_scan a ps t st) = config st"
  "dicts (summary_scan a ps t st) = dicts st"
  "next_ref (summary_scan a ps t st) = next_ref st"
  "files (summary_scan a ps t st) = files st"
  "calls (summary_scan a ps t st) = calls st"
  "spawns (trace (summary_scan a ps t st)) = spawns (trace st)"
  "config_events (trace (summary_scan a ps t st)) = config_events (trace st)"
  by (simp_all add: summary_scan_def Let_def spawns_prints config_events_prints prints_fields(1-6)
        print_fields spawns_simps config_events_simps)

lemma main_scan_dry:
  assumes "(start_date a = None) = (end_date a = None)"
    and "resolve_profiles a st = (Inr ps, st1)" and "dry_run a"
  shows "main_scan sc a st =
           (0, prints (Dry (MsgDryRun (length ps)) #
                       map (\<lambda>p. Dry (MsgDryRunProfileTo p (log_file_of a p))) ps)
                 (prints (config_lines_scan a ps) st1))"
  using assms
  by (simp add: main_scan_def validate_dates_pass config_lines_scan_def Let_def)

lemma main_single_csv_dry:
  assumes "(start_date a = None) = (end_date a = None)"
    and "resolve_profiles a st = (Inr ps, st1)" and "dry_run a"
  shows "main_single_csv sc a st =
           (0, prints (Dry (MsgDryRun (length ps)) #
                       map (\<lambda>p. Dry (MsgDryRunProfile p)) ps @
                       [Dry (MsgDryRunCombined (output_file a))])
                 (prints (config_lines_csv a ps) st1))"
  using assms
  by (simp add: main_single_csv_def validate_dates_pass config_lines_csv_def Let_def)

lemma main_scan_run:
  assumes d: "(start_date a = None) = (end_date a = None)"
    and r: "resolve_profiles a st = (Inr ps, st1)" and n: "\<not> dry_run a"
  shows "\<exists>st3. main_scan sc a st =
                 (0, summary_scan a ps \<lparr>successful_profiles = ps, failed_profiles = []\<rparr> st3)
           \<and> (\<forall>r < next_ref st. dicts st3 r = dicts st r)
           \<and> calls st3 = calls st + length ps
           \<and> (os_environ < next_ref st \<longrightarrow>
                map snd (spawns (trace st3)) = map snd (spawns (trace st)) @ map (child_env st) ps)
           \<and> config_events (trace st3) = config_events (trace st1)"
proof -
  let ?st2 = "print (Loop (MsgStarting (length ps))) (prints (config_lines_scan a ps) st1)"
  note e = resolve_profiles_effect [OF r]
  from fold_scan_effect [of sc a "length ps" 1 ps
      "\<lparr>successful_profiles = [], failed_profiles = []\<rparr>" ?st2]
  obtain st3 where l: "process_profiles_scan sc a ps ?st2 =
        (\<lparr>successful_profiles = ps, failed_profiles = []\<rparr>, st3)"
    and f: "\<forall>r < next_ref ?st2. dicts st3 r = dicts ?st2 r"
      "calls st3 = calls ?st2 + length ps"
      "os_environ < next_ref ?st2 \<longrightarrow>
         map snd (spawns (trace st3)) = map snd (spawns (trace ?st2)) @ map (child_env ?st2) ps"
      "config_events (trace st3) = config_events (trace ?st2)"
    by (auto simp: process_profiles_scan_def)
  have c: "child_env ?st2 = child_env st"
    using e by (simp add: child_env_def fun_eq_iff state_fields)
  have m: "main_scan sc a st =
        (0, summary_scan a ps \<lparr>successful_profiles = ps, failed_profiles = []\<rparr> st3)"
    using d r n l
    by (simp add: main_scan_def validate_dates_pass config_lines_scan_def Let_def)
  from f e have "\<forall>r < next_ref st. dicts st3 r = dicts st r"
    by (simp add: state_fields)
  moreover from f e have "calls st3 = calls st + length ps"
    by (simp add: state_fields)
  moreover from f(3) e c have "os_environ < next_ref st \<longrightarrow>
      map snd (spawns (trace st3)) = map snd (spawns (trace st)) @ map (child_env st) ps"
    by (simp add: print_fields(1-6) prints_fields(1-6) spawns_prints spawns_simps print_fields(7))
  moreover from f(4) have "config_events (trace st3) = config_events (trace st1)"
    by (simp add: config_events_prints config_events_simps print_fields(7))
  ultimately show ?thesis using m by blast
qed

lemma main_single_csv_run:
  assumes d: "(start_date a = None) = (end_date a = None)"
    and r: "resolve_profiles a st = (Inr ps, st1)" and n: "\<not> dry_run a"
  shows "\<exists>t st3. main_single_csv sc a st = (0, summary_csv a ps t st3)
           \<and> (\<forall>r < next_ref st. dicts st3 r = dicts st r)
           \<and> calls st3 = calls st + length ps
           \<and> (os_environ < next_ref st \<longrightarrow>
                map snd (spawns (trace st3)) = map snd (spawns (trace st)) @ map (child_env st) ps)
           \<and> config_events (trace st3) = config_events (trace st1)"
proof -
  let ?st2 = "print (Loop (MsgStarting (length ps))) (prints (config_lines_csv a ps) st1)"
  note e = resolve_profiles_effect [OF r]
  from fold_csv_effect [of sc a "length ps" 1 ps
      "\<lparr>successful_profiles = [], failed_profiles = [], all_csv_data = []\<rparr>" ?st2]
  obtain t st3 where l: "process_profiles_csv sc a ps ?st2 = (t, st3)"
    and f: "\<forall>r < next_ref ?st2. dicts st3 r = dicts ?st2 r"
      "calls st3 = calls ?st2 + length ps"
      "os_environ < next_ref ?st2 \<longrightarrow>
         map snd (spawns (trace st3)) = map snd (spawns (trace ?st2)) @ map (child_env ?st2) ps"
      "config_events (trace st3) = config_events (trace ?st2)"
    by (auto simp: process_profiles_csv_def)
  let ?st4 = "if all_csv_data t \<noteq> [] then write_combined_csv (all_csv_data t) (output_file a) st3
              else st3"
  have c: "child_env ?st2 = child_env st"
    using e by (simp add: child_env_def fun_eq_iff state_fields)
  have m: "main_single_csv sc a st = (0, summary_csv a ps t ?st4)"
    using d r n l
    by (simp add: main_single_csv_def validate_dates_pass config_lines_csv_def Let_def)
  have w: "dicts ?st4 = dicts st3" "calls ?st4 = calls st3"
    "spawns (trace ?st4) = spawns (trace st3)"
    "config_events (trace ?st4) = config_events (trace st3)"
    by (simp_all add: write_combined_csv_frame)
  from f e have "\<forall>r < next_ref st. dicts ?st4 r = dicts st r"
    by (simp only: w) (simp add: state_fields)
  moreover from f e have "calls ?st4 = calls st + length ps"
    by (simp only: w) (simp add: state_fields)
  moreover from f(3) e c have "os_environ < next_ref st \<longrightarrow>
      map snd (spawns (trace ?st4)) = map snd (spawns (trace st)) @ map (child_env st) ps"
    by (simp only: w)
       (simp add: print_fields(1-6) prints_fields(1-6) spawns_prints spawns_simps print_fields(7))
  moreover from f(4) have "config_events (trace ?st4) = config_events (trace st1)"
    by (simp only: w) (simp add: config_events_prints config_events_simps print_fields(7))
  ultimately show ?thesis using m by blast
qed


lemma main_scan_dry_effect:
  assumes "dry_run a"
  shows "calls (snd (main_scan sc a st)) = calls st
       \<and> files (snd (main_scan sc a st)) = files st
       \<and> dicts (snd (main_scan sc a st)) = dicts st
       \<and> filter acts (trace (snd (main_scan sc a st))) = filter acts (trace st)"
proof (cases "(start_date a = None) = (end_date a = None)")
  case False
  then show ?thesis
    by (simp add: main_scan_bad_dates print_fields)
next
  case True
  obtain r st1 where r: "resolve_profiles a st = (r, st1)" by (cases "resolve_profiles a st")
  note e = resolve_profiles_effect [OF r]
  show ?thesis
  proof (cases r)
    case (Inl code)
    with True r e show ?thesis
      by (simp add: main_scan_def validate_dates_pass)
  next
    case (Inr ps)
    have "filter acts (trace (snd (main_scan sc a st))) = filter acts (trace st1)"
      unfolding main_scan_dry [OF True r [unfolded Inr] assms] snd_conv
      by (subst acts_prints; (subst acts_prints)?)
         (auto simp: config_lines_scan_def acts_date_range)
    with e show ?thesis
      by (simp add: main_scan_dry [OF True r [unfolded Inr] assms] prints_fields)
  qed
qed

lemma main_single_csv_dry_effect:
  assumes "dry_run a"
  shows "calls (snd (main_single_csv sc a st)) = calls st
       \<and> files (snd (main_single_csv sc a st)) = files st
       \<and> dicts (snd (main_single_csv sc a st)) = dicts st
       \<and> filter acts (trace (snd (main_single_csv sc a st))) = filter acts (trace st)"
proof (cases "(start_date a = None) = (end_date a = None)")
  case False
  then show ?thesis
    by (simp add: main_single_csv_bad_dates print_fields)
next
  case True
  obtain r st1 where r: "resolve_profiles a st = (r, st1)" by (cases "resolve_profiles a st")
  note e = resolve_profiles_effect [OF r]
  show ?thesis
  proof (cases r)
    case (Inl code)
    with True r e show ?thesis
      by (simp add: main_single_csv_def validate_dates_pass)
  next
    case (Inr ps)
    have "filter acts (trace (snd (main_single_csv sc a st))) = filter acts (trace st1)"
      unfolding main_single_csv_dry [OF True r [unfolded Inr] assms] snd_conv
      by (subst acts_prints; (subst acts_prints)?)
         (auto simp: config_lines_csv_def acts_date_range)
    with e show ?thesis
      by (simp add: main_single_csv_dry [OF True r [unfolded Inr] assms] prints_fields)
  qed
qed

lemma main_scan_config_events:
  assumes "profiles a = Some p" and "p \<noteq> []"
  shows "config_events (trace (snd (main_scan sc a st))) = config_events (trace st)"
proof (cases "(start_date a = None) = (end_date a = None)")
  case False
  then show ?thesis
    by (simp add: main_scan_bad_dates print_fields config_events_simps)
next
  case True
  note r = resolve_profiles_given [OF assms, of st]
  show ?thesis
  proof (cases "dry_run a")
    case True
    with \<open>(start_date a = None) = (end_date a = None)\<close> r show ?thesis
      by (simp add: main_scan_dry config_events_prints print_fields config_events_simps)
  next
    case False
    from main_scan_run [OF True r False, of sc]
    obtain st3 where "main_scan sc a st =
        (0, summary_scan a (map strip (split_comma p))
              \<lparr>successful_profiles = map strip (split_comma p), failed_profiles = []\<rparr> st3)"
      and "config_events (trace st3) =
           config_events (trace (print (Resolve (MsgUsingSpecified (map strip (split_comma p)))) st))"
      by blast
    then show ?thesis
      by (simp add: summary_scan_frame print_fields config_events_simps)
  qed
qed

lemma main_single_csv_config_events:
  assumes "profiles a = Some p" and "p \<noteq> []"
  shows "config_events (trace (snd (main_single_csv sc a st))) = config_events (trace st)"
proof (cases "(start_date a = None) = (end_date a = None)")
  case False
  then show ?thesis
    by (simp add: main_single_csv_bad_dates print_fields config_events_simps)
next
  case True
  note r = resolve_profiles_given [OF assms, of st]
  show ?thesis
  proof (cases "dry_run a")
    case True
    with \<open>(start_date a = None) = (end_date a = None)\<close> r show ?thesis
      by (simp add: main_single_csv_dry config_events_prints print_fields config_events_simps)
  next
    case False
    from main_single_csv_run [OF True r False, of sc]
    obtain t st3 where "main_single_csv sc a st =
        (0, summary_csv a (map strip (split_comma p)) t st3)"
      and "config_events (trace st3) =
           config_events (trace (print (Resolve (MsgUsingSpecified (map strip (split_comma p)))) st))"
      by blast
    then show ?thesis
      by (simp add: summary_csv_frame print_fields config_events_simps)
  qed
qed

lemma main_scan_environ:
  assumes "os_environ < next_ref st"
  shows "dicts (snd (main_scan sc a st)) os_environ = dicts st os_environ
       \<and> (\<exists>ps. map snd (spawns (trace (snd (main_scan sc a st)))) =
                 map snd (spawns (trace st)) @ map (child_env st) ps)"
proof (cases "(start_date a = None) = (end_date a = None)")
  case False
  then have "main_scan sc a st =
      (1, print (Resolve (if end_date a = None then MsgNeedEndDate else MsgNeedStartDate)) st)"
    by (rule main_scan_bad_dates)
  then have "dicts (snd (main_scan sc a st)) os_environ = dicts st os_environ"
    and "map snd (spawns (trace (snd (main_scan sc a st)))) =
                 map snd (spawns (trace st)) @ map (child_env st) []"
    by (simp_all add: print_fields spawns_simps)
  then show ?thesis by blast
next
  case True
  obtain r st1 where r: "resolve_profiles a st = (r, st1)" by (cases "resolve_profiles a st")
  note e = resolve_profiles_effect [OF r]
  show ?thesis
  proof (cases r)
    case (Inl code)
    with True r have "main_scan sc a st = (code, st1)"
      by (simp add: main_scan_def validate_dates_pass)
    with e have "dicts (snd (main_scan sc a st)) os_environ = dicts st os_environ"
      and "map snd (spawns (trace (snd (main_scan sc a st)))) =
                 map snd (spawns (trace st)) @ map (child_env st) []"
      by simp_all
    then show ?thesis by blast
  next
    case (Inr ps)
    note r' = r [unfolded Inr]
    show ?thesis
    proof (cases "dry_run a")
      case True
      from main_scan_dry [OF \<open>(start_date a = None) = (end_date a = None)\<close> r' True, of sc] e
      have "dicts (snd (main_scan sc a st)) os_environ = dicts st os_environ"
        and "map snd (spawns (trace (snd (main_scan sc a st)))) =
                 map snd (spawns (trace st)) @ map (child_env st) []"
        by (simp_all add: prints_fields(1-6) spawns_prints)
      then show ?thesis by blast
    next
      case False
      from main_scan_run [OF True r' False, of sc] assms
      obtain st3 where m: "main_scan sc a st =
          (0, summary_scan a ps \<lparr>successful_profiles = ps, failed_profiles = []\<rparr> st3)"
        and "dicts st3 os_environ = dicts st os_environ"
        and "map snd (spawns (trace st3)) = map snd (spawns (trace st)) @ map (child_env st) ps"
        by blast
      then have "dicts (snd (main_scan sc a st)) os_environ = dicts st os_environ"
        and "map snd (spawns (trace (snd (main_scan sc a st)))) =
                 map snd (spawns (trace st)) @ map (child_env st) ps"
        by (simp_all add: summary_scan_frame)
      then show ?thesis by blast
    qed
  qed
qed

lemma main_single_csv_environ:
  assumes "os_environ < next_ref st"
  shows "dicts (snd (main_single_csv sc a st)) os_environ = dicts st os_environ
       \<and> (\<exists>ps. map snd (spawns (trace (snd (main_single_csv sc a st)))) =
                 map snd (spawns (trace st)) @ map (child_env st) ps)"
proof (cases "(start_date a = None) = (end_date a = None)")
  case False
  then have "main_single_csv sc a st =
      (1, print (Resolve (if end_date a = None then MsgNeedEndDate else MsgNeedStartDate)) st)"
    by (rule main_single_csv_bad_dates)
  then have "dicts (snd (main_single_csv sc a st)) os_environ = dicts st os_environ"
    and "map snd (spawns (trace (snd (main_single_csv sc a st)))) =
                 map snd (spawns (trace st)) @ map (child_env st) []"
    by (simp_all add: print_fields spawns_simps)
  then show ?thesis by blast
next
  case True
  obtain r st1 where r: "resolve_profiles a st = (r, st1)" by (cases "resolve_profiles a st")
  note e = resolve_profiles_effect [OF r]
  show ?thesis
  proof (cases r)
    case (Inl code)
    with True r have "main_single_csv sc a st = (code, st1)"
      by (simp add: main_single_csv_def validate_dates_pass)
    with e have "dicts (snd (main_single_csv sc a st)) os_environ = dicts st os_environ"
      and "map snd (spawns (trace (snd (main_single_csv sc a st)))) =
                 map snd (spawns (trace st)) @ map (child_env st) []"
      by simp_all
    then show ?thesis by blast
  next
    case (Inr ps)
    note r' = r [unfolded Inr]
    show ?thesis
    proof (cases "dry_run a")
      case True
      from main_single_csv_dry [OF \<open>(start_date a = None) = (end_date a = None)\<close> r' True, of sc] e
      have "dicts (snd (main_single_csv sc a st)) os_environ = dicts st os_environ"
        and "map snd (spawns (trace (snd (main_single_csv sc a st)))) =
                 map snd (spawns (trace st)) @ map (child_env st) []"
        by (simp_all add: prints_fields(1-6) spawns_prints)
      then show ?thesis by blast
    next
      case False
      from main_single_csv_run [OF True r' False, of sc] assms
      obtain t st3 where m: "main_single_csv sc a st = (0, summary_csv a ps t st3)"
        and "dicts st3 os_environ = dicts st os_environ"
        and "map snd (spawns (trace st3)) = map snd (spawns (trace st)) @ map (child_env st) ps"
        by blast
      then have "dicts (snd (main_single_csv sc a st)) os_environ = dicts st os_environ"
        and "map snd (spawns (trace (snd (main_single_csv sc a st)))) =
                 map snd (spawns (trace st)) @ map (child_env st) ps"
        by (simp_all add: summary_csv_frame)
      then show ?thesis by blast
    qed
  qed
qed

lemmas eval_run =
  main_scan_def main_single_csv_def validate_dates_def resolve_profiles_def Let_def
  process_profiles_scan_def process_profile_scan_def process_profiles_csv_def
  process_profile_csv_def run_deployment_scanner_def run_deployment_scanner_and_parse_csv_def
  dict_copy_def dict_setitem_def subprocess_run_def scanner_cmd_def summary_scan_def
  summary_csv_def write_combined_csv_def date_range_msg_def log_file_of_def
  prints_def print_def emit_def start_def os_environ_def always_def


section \<open>C1: the list that profile discovery returns\<close>

text \<open>
  C1, as the code has it.  For a configuration file with text \<open>content\<close>,
  \<open>get_aws_profiles\<close> returns the names collected from the matches of the pattern,
  followed by \<open>default\<close> once when \<open>[default]\<close> occurs in the text.  The collected names
  are, in the order of the matches, the trimmed group of every match whose trimmed group
  is neither empty nor \<open>default\<close>; so each of them is trimmed, non-empty and different
  from \<open>default\<close>, and \<open>default\<close> can only stand last, once.  Nothing removes a name
  that occurs twice.
\<close>

theorem get_aws_profiles_listing:
  assumes "config st = Content content"
  shows "fst (get_aws_profiles st) =
           Inr (collect_profiles (findall True content) [] @
                (if sublist (lit ''[default]'') content then [lit ''default''] else []))
         \<and> collect_profiles (findall True content) [] =
             map strip (filter (\<lambda>m. strip m \<noteq> [] \<and> strip m \<noteq> lit ''default'')
                          (findall True content))
         \<and> (\<forall>p \<in> set (collect_profiles (findall True content) []).
               strip p = p \<and> p \<noteq> [] \<and> p \<noteq> lit ''default'')"
proof (intro conjI)
  show "fst (get_aws_profiles st) =
           Inr (collect_profiles (findall True content) [] @
                (if sublist (lit ''[default]'') content then [lit ''default''] else []))"
    using assms by (rule get_aws_profiles_Content)
  show "collect_profiles (findall True content) [] =
             map strip (filter (\<lambda>m. strip m \<noteq> [] \<and> strip m \<noteq> lit ''default'')
                          (findall True content))"
    by (simp add: collect_profiles_append)
  show "\<forall>p \<in> set (collect_profiles (findall True content) []).
               strip p = p \<and> p \<noteq> [] \<and> p \<noteq> lit ''default''"
    using collect_profiles_trimmed by blast
qed

text \<open>
  The file with the sections \<open>[a]\<close>, \<open>[profile b]\<close> and \<open>[default]\<close> yields
  \<open>a\<close>, \<open>b\<close>, \<open>default\<close>.
\<close>

theorem get_aws_profiles_listing_witness:
  "config (start (Content cfg_listing) [] [] Map.empty) = Content cfg_listing
   \<and> fst (get_aws_profiles (start (Content cfg_listing) [] [] Map.empty)) =
       Inr ([lit ''a'', lit ''b''] @ [lit ''default''])"
proof -
  have c: "config (start (Content cfg_listing) [] [] Map.empty) = Content cfg_listing"
    by (simp add: start_def)
  have f: "collect_profiles (findall True cfg_listing) [] = [lit ''a'', lit ''b'']"
    by (simp add: cfg_listing_def eval_pattern)
  have s: "sublist (lit ''[default]'') cfg_listing"
    by (simp add: cfg_listing_def lit_def sublist_code)
  from get_aws_profiles_listing [OF c]
  have "fst (get_aws_profiles (start (Content cfg_listing) [] [] Map.empty)) =
           Inr (collect_profiles (findall True cfg_listing) [] @
                (if sublist (lit ''[default]'') cfg_listing then [lit ''default''] else []))"
    by (rule conjunct1)
  then have "fst (get_aws_profiles (start (Content cfg_listing) [] [] Map.empty)) =
       Inr ([lit ''a'', lit ''b''] @ [lit ''default''])"
    by (simp only: f s if_True)
  with c show ?thesis by (rule conjI)
qed

text \<open>
  C1 says that the returned names are distinct.  A file that declares \<open>[a]\<close> twice yields
  \<open>a\<close> twice.
\<close>

theorem get_aws_profiles_keeps_duplicates:
  "fst (get_aws_profiles (start (Content cfg_twice) [] [] Map.empty)) =
     Inr ([lit ''a'', lit ''a''] @ [])
   \<and> \<not> distinct [lit ''a'', lit ''a'']"
proof
  have c: "config (start (Content cfg_twice) [] [] Map.empty) = Content cfg_twice"
    by (simp add: start_def)
  have f: "collect_profiles (findall True cfg_twice) [] = [lit ''a'', lit ''a'']"
    by (simp add: cfg_twice_def eval_pattern)
  have s: "\<not> sublist (lit ''[default]'') cfg_twice"
    by (simp add: cfg_twice_def lit_def sublist_code)
  show "fst (get_aws_profiles (start (Content cfg_twice) [] [] Map.empty)) =
     Inr ([lit ''a'', lit ''a''] @ [])"
    using get_aws_profiles_Content [OF c] by (simp only: f s if_False)
  show "\<not> distinct [lit ''a'', lit ''a'']"
    by simp
qed

section \<open>C2: a timeout in the per-profile script\<close>

text \<open>
  C2 says that a profile whose scanner runs into the timeout is recorded in
  \<open>failed_profiles\<close> and counted under Failed, in both scripts.  In
  \<open>run-multi-account-scan.py\<close> the handler inside \<open>run_deployment_scanner\<close> prints the
  timeout and the function returns normally, so \<open>main\<close> appends the profile to
  \<open>successful_profiles\<close>: with the profiles \<open>a\<close> and \<open>b\<close> and a scanner that always
  times out, the summary counts 2 successful and 0 failed profiles and lists both with
  their CSV files, although the timeout of \<open>a\<close> was printed.  Both profiles are
  processed.
\<close>

theorem timeout_listed_as_success:
  "concat (map summary_of (trace (snd (main_scan (always TimeoutExpired) scan_args_ab
       (start Missing [] [] Map.empty))))) =
     [MsgScanCompleted, MsgTotal 2, MsgSuccessful 2, MsgFailed 0, MsgSuccessfulProfiles,
      MsgProfileTo (lit ''a'') (lit ''out_a.csv''), MsgProfileTo (lit ''b'') (lit ''out_b.csv''),
      MsgAllCsvGenerated]
   \<and> Print (Scan (MsgTimeout (lit ''a''))) \<in> set (trace (snd (main_scan (always TimeoutExpired)
       scan_args_ab (start Missing [] [] Map.empty))))"
  by (simp add: eval_run scan_args_ab_def lit_def strip_def isspace_def)

section \<open>C3: return code 0 and the CSV artifact\<close>




section \<open>C4: the combined CSV file\<close>

text \<open>
  C4, as the code has it.  Let \<open>d\<close> be the first list of \<open>all_data\<close> with at least one
  row.  When its first row has at least one field, \<open>write_combined_csv\<close> writes the
  output file as that row followed by the rows after the first of every list, in order
  (a list with no or one row adds nothing).  When there is no such list, or the first
  row of \<open>d\<close> has no field, no file is written.
\<close>

theorem write_combined_csv_file:
  "files (write_combined_csv all_data out_file st) =
     (case find (\<lambda>d. d \<noteq> []) all_data of
        None \<Rightarrow> files st
      | Some d \<Rightarrow>
          if hd d = [] then files st
          else (files st)(out_file \<mapsto> hd d # concat (map (drop 1) all_data)))"
proof (cases "find (\<lambda>d. d \<noteq> []) all_data")
  case None
  then show ?thesis
    by (simp add: write_combined_csv_def first_header_find print_fields)
next
  case (Some d)
  then have "all_data \<noteq> []" by auto
  with Some show ?thesis
    by (simp add: write_combined_csv_def first_header_find print_fields emit_fields
                  write_data_concat Let_def)
qed

text \<open>
  The lists \<open>[header, r1, r2]\<close> and \<open>[header, r3]\<close> give \<open>header, r1, r2, r3\<close>; an
  empty list and a list with the header alone add nothing.
\<close>

theorem write_combined_csv_file_witness:
  "files (write_combined_csv [[hdr, r1, r2], [hdr, r3]] (lit ''all.csv'') st_start) =
     (files st_start)(lit ''all.csv'' \<mapsto> [hdr, r1, r2, r3])
   \<and> files (write_combined_csv [[], [hdr], [hdr, r1]] (lit ''all.csv'') st_start) =
     (files st_start)(lit ''all.csv'' \<mapsto> [hdr, r1])"
  using write_combined_csv_file [of "[[hdr, r1, r2], [hdr, r3]]" "lit ''all.csv''" st_start]
    write_combined_csv_file [of "[[], [hdr], [hdr, r1]]" "lit ''all.csv''" st_start]
  by (simp add: hdr_def)

text \<open>
  C4 says that the file always consists of the header and the data rows.  When the
  first row of the first non-empty list has no field (\<open>csv.reader\<close> yields such a row
  for an empty line), \<open>not headers\<close> holds and nothing is written.
\<close>

theorem write_combined_csv_empty_header:
  "files (write_combined_csv [[[], r1]] (lit ''all.csv'') st_start) (lit ''all.csv'') = None
   \<and> files (write_combined_csv [[[], r1]] (lit ''all.csv'') st_start) (lit ''all.csv'') \<noteq> Some [[], r1]"
  by (simp add: write_combined_csv_def print_fields st_start_def start_def)

section \<open>C5: start date and end date come together\<close>

text \<open>
  C5.  When exactly one of \<open>--start-date\<close> and \<open>--end-date\<close> is given, \<open>main\<close> of
  either script exits with status 1 after printing the error, and nothing else has
  happened: the state is the initial one with that line printed, so no subprocess was
  started and the configuration file was not touched.  When both or none are given, the
  check passes and leaves the state as it is.
\<close>

theorem date_pair_validation:
  fixes a :: csv_args and b :: scan_args and c :: "'x args_scheme"
  assumes "(start_date a = None) \<noteq> (end_date a = None)"
    and "(start_date b = None) \<noteq> (end_date b = None)"
    and "(start_date c = None) = (end_date c = None)"
  shows "main_single_csv sc a st =
           (1, print (Resolve (if end_date a = None then MsgNeedEndDate else MsgNeedStartDate)) st)
       \<and> main_scan sc' b st' =
           (1, print (Resolve (if end_date b = None then MsgNeedEndDate else MsgNeedStartDate)) st')
       \<and> validate_dates c st'' = (None, st'')"
  using main_single_csv_bad_dates [OF assms(1), of sc st]
    main_scan_bad_dates [OF assms(2), of sc' st'] validate_dates_pass [OF assms(3), of st'']
  by (intro conjI)

text \<open>
  Only a start date in the single-CSV script, only an end date in the per-profile
  script, both dates.
\<close>

theorem date_pair_validation_witness:
  "(start_date csv_start_only = None) \<noteq> (end_date csv_start_only = None)
   \<and> (start_date scan_end_only = None) \<noteq> (end_date scan_end_only = None)
   \<and> (start_date scan_both_dates = None) = (end_date scan_both_dates = None)
   \<and> main_single_csv (always TimeoutExpired) csv_start_only st_cfg =
        (1, print (Resolve MsgNeedEndDate) st_cfg)
   \<and> main_scan (always TimeoutExpired) scan_end_only st_cfg =
        (1, print (Resolve MsgNeedStartDate) st_cfg)
   \<and> validate_dates scan_both_dates st_cfg = (None, st_cfg)"
proof -
  have a: "(start_date csv_start_only = None) \<noteq> (end_date csv_start_only = None)"
    by (simp add: csv_start_only_def)
  have b: "(start_date scan_end_only = None) \<noteq> (end_date scan_end_only = None)"
    by (simp add: scan_end_only_def)
  have c: "(start_date scan_both_dates = None) = (end_date scan_both_dates = None)"
    by (simp add: scan_both_dates_def)
  have "end_date csv_start_only = None" and "end_date scan_end_only \<noteq> None"
    by (simp_all add: csv_start_only_def scan_end_only_def)
  with a b c date_pair_validation [OF a b c, of "always TimeoutExpired" st_cfg
      "always TimeoutExpired" st_cfg st_cfg]
  show ?thesis by simp
qed

section \<open>C6: a completed run exits with status 0\<close>



section \<open>C7: a dry run only prints the plan\<close>

text \<open>
  C7.  With \<open>--dry-run\<close>, \<open>main\<close> of either script starts no subprocess, leaves all
  files as they are, and adds no invocation, no removal or writing of a file and no
  line of the summary to the trace.  When the dates pass the check and the profiles
  resolve to \<open>ps\<close>, it returns after printing the configuration, the number of profiles
  and one line for each profile of \<open>ps\<close>, in the per-profile script with the name of the
  CSV file of that profile (and the single-CSV script names the combined file last).
\<close>

theorem dry_run_only_plans:
  fixes a :: csv_args and b :: scan_args
  assumes "dry_run a" and "dry_run b"
  shows "calls (snd (main_single_csv sc a st)) = calls st
       \<and> files (snd (main_single_csv sc a st)) = files st
       \<and> filter acts (trace (snd (main_single_csv sc a st))) = filter acts (trace st)
       \<and> calls (snd (main_scan sc b st)) = calls st
       \<and> files (snd (main_scan sc b st)) = files st
       \<and> filter acts (trace (snd (main_scan sc b st))) = filter acts (trace st)
       \<and> (\<forall>ps st1. (start_date a = None) = (end_date a = None) \<and>
                    resolve_profiles a st = (Inr ps, st1) \<longrightarrow>
             main_single_csv sc a st =
               (0, prints (Dry (MsgDryRun (length ps)) #
                           map (\<lambda>p. Dry (MsgDryRunProfile p)) ps @
                           [Dry (MsgDryRunCombined (output_file a))])
                     (prints (config_lines_csv a ps) st1)))
       \<and> (\<forall>ps st1. (start_date b = None) = (end_date b = None) \<and>
                    resolve_profiles b st = (Inr ps, st1) \<longrightarrow>
             main_scan sc b st =
               (0, prints (Dry (MsgDryRun (length ps)) #
                           map (\<lambda>p. Dry (MsgDryRunProfileTo p (log_file_of b p))) ps)
                     (prints (config_lines_scan b ps) st1)))"
proof -
  note A = main_single_csv_dry_effect [OF assms(1), of sc st]
  note B = main_scan_dry_effect [OF assms(2), of sc st]
  have C: "\<forall>ps st1. (start_date a = None) = (end_date a = None) \<and>
                    resolve_profiles a st = (Inr ps, st1) \<longrightarrow>
             main_single_csv sc a st =
               (0, prints (Dry (MsgDryRun (length ps)) #
                           map (\<lambda>p. Dry (MsgDryRunProfile p)) ps @
                           [Dry (MsgDryRunCombined (output_file a))])
                     (prints (config_lines_csv a ps) st1))"
    using assms(1) by (intro allI impI) (rule main_single_csv_dry, simp_all)
  have D: "\<forall>ps st1. (start_date b = None) = (end_date b = None) \<and>
                    resolve_profiles b st = (Inr ps, st1) \<longrightarrow>
             main_scan sc b st =
               (0, prints (Dry (MsgDryRun (length ps)) #
                           map (\<lambda>p. Dry (MsgDryRunProfileTo p (log_file_of b p))) ps)
                     (prints (config_lines_scan b ps) st1))"
    using assms(2) by (intro allI impI) (rule main_scan_dry, simp_all)
  from A B C D show ?thesis by (intro conjI) simp_all
qed

text \<open>
  Three profiles given by \<open>--profiles\<close>: three planned lines and nothing else.
\<close>

theorem dry_run_only_plans_witness:
  "dry_run csv_dry_abc \<and> dry_run scan_dry_abc
   \<and> (start_date csv_dry_abc = None) = (end_date csv_dry_abc = None)
   \<and> (start_date scan_dry_abc = None) = (end_date scan_dry_abc = None)
   \<and> fst (resolve_profiles csv_dry_abc st_cfg) = Inr [lit ''a'', lit ''b'', lit ''c'']
   \<and> fst (resolve_profiles scan_dry_abc st_cfg) = Inr [lit ''a'', lit ''b'', lit ''c'']
   \<and> calls (snd (main_single_csv (always TimeoutExpired) csv_dry_abc st_cfg)) = 0
   \<and> calls (snd (main_scan (always TimeoutExpired) scan_dry_abc st_cfg)) = 0
   \<and> files (snd (main_single_csv (always TimeoutExpired) csv_dry_abc st_cfg)) = Map.empty
   \<and> files (snd (main_scan (always TimeoutExpired) scan_dry_abc st_cfg)) = Map.empty
   \<and> filter acts (trace (snd (main_single_csv (always TimeoutExpired) csv_dry_abc st_cfg))) = []
   \<and> filter acts (trace (snd (main_scan (always TimeoutExpired) scan_dry_abc st_cfg))) = []
   \<and> main_scan (always TimeoutExpired) scan_dry_abc st_cfg =
        (0, prints [Dry (MsgDryRun 3),
                    Dry (MsgDryRunProfileTo (lit ''a'') (lit ''out_a.csv'')),
                    Dry (MsgDryRunProfileTo (lit ''b'') (lit ''out_b.csv'')),
                    Dry (MsgDryRunProfileTo (lit ''c'') (lit ''out_c.csv''))]
              (prints (config_lines_scan scan_dry_abc [lit ''a'', lit ''b'', lit ''c''])
                 (print (Resolve (MsgUsingSpecified [lit ''a'', lit ''b'', lit ''c''])) st_cfg)))
   \<and> main_single_csv (always TimeoutExpired) csv_dry_abc st_cfg =
        (0, prints [Dry (MsgDryRun 3), Dry (MsgDryRunProfile (lit ''a'')),
                    Dry (MsgDryRunProfile (lit ''b'')), Dry (MsgDryRunProfile (lit ''c'')),
                    Dry (MsgDryRunCombined (lit ''all.csv''))]
              (prints (config_lines_csv csv_dry_abc [lit ''a'', lit ''b'', lit ''c''])
                 (print (Resolve (MsgUsingSpecified [lit ''a'', lit ''b'', lit ''c''])) st_cfg)))"
proof -
  have a: "dry_run csv_dry_abc" "(start_date csv_dry_abc = None) = (end_date csv_dry_abc = None)"
    "profiles csv_dry_abc = Some (lit ''a, b ,c'')" "output_file csv_dry_abc = lit ''all.csv''"
    by (simp_all add: csv_dry_abc_def)
  have b: "dry_run scan_dry_abc" "(start_date scan_dry_abc = None) = (end_date scan_dry_abc = None)"
    "profiles scan_dry_abc = Some (lit ''a, b ,c'')"
    by (simp_all add: scan_dry_abc_def)
  have n: "lit ''a, b ,c'' \<noteq> []" by (simp add: lit_def)
  note ra = resolve_profiles_given [OF a(3) n, of st_cfg, unfolded tokens_abc]
  note rb = resolve_profiles_given [OF b(3) n, of st_cfg, unfolded tokens_abc]
  have s: "calls st_cfg = 0" "files st_cfg = Map.empty" "filter acts (trace st_cfg) = []"
    by (simp_all add: st_cfg_def start_def)
  have l: "log_file_of scan_dry_abc (lit ''a'') = lit ''out_a.csv''"
    "log_file_of scan_dry_abc (lit ''b'') = lit ''out_b.csv''"
    "log_file_of scan_dry_abc (lit ''c'') = lit ''out_c.csv''"
    by (simp_all add: log_file_of_def scan_dry_abc_def lit_def)
  note d = dry_run_only_plans [OF a(1) b(1), of "always TimeoutExpired" st_cfg]
  from d s have e:
    "calls (snd (main_single_csv (always TimeoutExpired) csv_dry_abc st_cfg)) = 0"
    "calls (snd (main_scan (always TimeoutExpired) scan_dry_abc st_cfg)) = 0"
    "files (snd (main_single_csv (always TimeoutExpired) csv_dry_abc st_cfg)) = Map.empty"
    "files (snd (main_scan (always TimeoutExpired) scan_dry_abc st_cfg)) = Map.empty"
    "filter acts (trace (snd (main_single_csv (always TimeoutExpired) csv_dry_abc st_cfg))) = []"
    "filter acts (trace (snd (main_scan (always TimeoutExpired) scan_dry_abc st_cfg))) = []"
    by simp_all
  from d a(2) ra have m1: "main_single_csv (always TimeoutExpired) csv_dry_abc st_cfg =
        (0, prints [Dry (MsgDryRun 3), Dry (MsgDryRunProfile (lit ''a'')),
                    Dry (MsgDryRunProfile (lit ''b'')), Dry (MsgDryRunProfile (lit ''c'')),
                    Dry (MsgDryRunCombined (lit ''all.csv''))]
              (prints (config_lines_csv csv_dry_abc [lit ''a'', lit ''b'', lit ''c''])
                 (print (Resolve (MsgUsingSpecified [lit ''a'', lit ''b'', lit ''c''])) st_cfg)))"
    by (simp add: a(4) numeral_3_eq_3)
  from d b(2) rb have m2: "main_scan (always TimeoutExpired) scan_dry_abc st_cfg =
        (0, prints [Dry (MsgDryRun 3),
                    Dry (MsgDryRunProfileTo (lit ''a'') (lit ''out_a.csv'')),
                    Dry (MsgDryRunProfileTo (lit ''b'') (lit ''out_b.csv'')),
                    Dry (MsgDryRunProfileTo (lit ''c'') (lit ''out_c.csv''))]
              (prints (config_lines_scan scan_dry_abc [lit ''a'', lit ''b'', lit ''c''])
                 (print (Resolve (MsgUsingSpecified [lit ''a'', lit ''b'', lit ''c''])) st_cfg)))"
    by (simp add: l numeral_3_eq_3)
  have r: "fst (resolve_profiles csv_dry_abc st_cfg) = Inr [lit ''a'', lit ''b'', lit ''c'']"
    "fst (resolve_profiles scan_dry_abc st_cfg) = Inr [lit ''a'', lit ''b'', lit ''c'']"
    by (simp_all add: ra rb)
  from a(1,2) b(1,2) r e m2 m1 show ?thesis by (intro conjI)
qed

section \<open>C8: \<open>--profiles\<close> takes precedence\<close>

text \<open>
  C8.  When \<open>--profiles\<close> is given and not empty, the profiles to process are the
  fields of the argument between commas, each trimmed, in the order given; the state is
  the one before with the line that names them printed, whatever the configuration file
  is.  Over the whole of \<open>main\<close>, in either script, the trace gains no access to the
  configuration file.
\<close>

theorem explicit_profiles_bypass_config:
  fixes a :: csv_args and b :: scan_args
  assumes "profiles a = Some p" and "profiles b = Some p" and "p \<noteq> []"
  shows "resolve_profiles a st =
           (Inr (map strip (split_comma p)),
            print (Resolve (MsgUsingSpecified (map strip (split_comma p)))) st)
       \<and> resolve_profiles b st =
           (Inr (map strip (split_comma p)),
            print (Resolve (MsgUsingSpecified (map strip (split_comma p)))) st)
       \<and> config_events (trace (snd (main_single_csv sc a st))) = config_events (trace st)
       \<and> config_events (trace (snd (main_scan sc b st))) = config_events (trace st)"
  using resolve_profiles_given [OF assms(1) assms(3), of st]
    resolve_profiles_given [OF assms(2) assms(3), of st]
    main_single_csv_config_events [OF assms(1) assms(3), of sc st]
    main_scan_config_events [OF assms(2) assms(3), of sc st]
  by (intro conjI)

text \<open>
  The argument \<open>a, b ,c\<close> with a configuration file that declares other profiles.
\<close>

theorem explicit_profiles_bypass_config_witness:
  "profiles csv_dry_abc = Some (lit ''a, b ,c'') \<and> profiles scan_dry_abc = Some (lit ''a, b ,c'')
   \<and> lit ''a, b ,c'' \<noteq> []
   \<and> config st_cfg = Content cfg_listing
   \<and> fst (resolve_profiles csv_dry_abc st_cfg) = Inr [lit ''a'', lit ''b'', lit ''c'']
   \<and> fst (resolve_profiles scan_dry_abc st_cfg) = Inr [lit ''a'', lit ''b'', lit ''c'']
   \<and> config_events (trace (snd (main_single_csv (always TimeoutExpired) csv_dry_abc st_cfg))) = []
   \<and> config_events (trace (snd (main_scan (always TimeoutExpired) scan_dry_abc st_cfg))) = []"
proof -
  have a: "profiles csv_dry_abc = Some (lit ''a, b ,c'')"
    by (simp add: csv_dry_abc_def)
  have b: "profiles scan_dry_abc = Some (lit ''a, b ,c'')"
    by (simp add: scan_dry_abc_def)
  have n: "lit ''a, b ,c'' \<noteq> []"
    by (simp add: lit_def)
  have c: "config st_cfg = Content cfg_listing" "config_events (trace st_cfg) = []"
    by (simp_all add: st_cfg_def start_def config_events_simps)
  from explicit_profiles_bypass_config [OF a b n, of st_cfg "always TimeoutExpired"] a b n c
  show ?thesis by (simp add: tokens_abc)
qed

section \<open>C9: \<open>AWS_PROFILE\<close> is set for the child only\<close>

text \<open>
  C9.  In a state where the address of \<open>os.environ\<close> is allocated, one invocation of
  the scanner by either script passes to the child the contents of \<open>os.environ\<close> with
  \<open>AWS_PROFILE\<close> set to the profile, and nothing else changed, and leaves \<open>os.environ\<close>
  as it was.  So does a whole run of \<open>main\<close>: every child it starts gets \<open>os.environ\<close>
  with \<open>AWS_PROFILE\<close> set to a profile, and \<open>os.environ\<close> is the same at the end.
\<close>

theorem child_environment_only:
  fixes a :: csv_args and b :: scan_args
  assumes "os_environ < next_ref st"
  shows "dicts (snd (run_deployment_scanner sc p rg sd ed lf st)) os_environ = dicts st os_environ
       \<and> map snd (spawns (trace (snd (run_deployment_scanner sc p rg sd ed lf st)))) =
           map snd (spawns (trace st)) @ [child_env st p]
       \<and> dicts (snd (run_deployment_scanner_and_parse_csv sc p rg sd ed lf st)) os_environ =
           dicts st os_environ
       \<and> map snd (spawns (trace (snd (run_deployment_scanner_and_parse_csv sc p rg sd ed lf st)))) =
           map snd (spawns (trace st)) @ [child_env st p]
       \<and> map_of (child_env st p) = (map_of (dicts st os_environ))(lit ''AWS_PROFILE'' \<mapsto> p)
       \<and> dicts (snd (main_single_csv sc a st)) os_environ = dicts st os_environ
       \<and> (\<exists>ps. map snd (spawns (trace (snd (main_single_csv sc a st)))) =
                 map snd (spawns (trace st)) @ map (child_env st) ps)
       \<and> dicts (snd (main_scan sc b st)) os_environ = dicts st os_environ
       \<and> (\<exists>ps. map snd (spawns (trace (snd (main_scan sc b st)))) =
                 map snd (spawns (trace st)) @ map (child_env st) ps)"
proof -
  from run_deployment_scanner_effect [of sc p rg sd ed lf st] assms
  have A: "dicts (snd (run_deployment_scanner sc p rg sd ed lf st)) os_environ = dicts st os_environ"
    "map snd (spawns (trace (snd (run_deployment_scanner sc p rg sd ed lf st)))) =
           map snd (spawns (trace st)) @ [child_env st p]"
    by auto
  from run_csv_effect [of sc p rg sd ed lf st] assms
  have B: "dicts (snd (run_deployment_scanner_and_parse_csv sc p rg sd ed lf st)) os_environ =
           dicts st os_environ"
    "map snd (spawns (trace (snd (run_deployment_scanner_and_parse_csv sc p rg sd ed lf st)))) =
           map snd (spawns (trace st)) @ [child_env st p]"
    by auto
  have C: "map_of (child_env st p) = (map_of (dicts st os_environ))(lit ''AWS_PROFILE'' \<mapsto> p)"
    by (simp add: child_env_def update_conv')
  from A B C main_single_csv_environ [OF assms, of sc a] main_scan_environ [OF assms, of sc b]
  show ?thesis by (intro conjI) simp_all
qed

text \<open>
  With \<open>PATH\<close> in the environment, the child for profile \<open>a\<close> gets \<open>PATH\<close> and
  \<open>AWS_PROFILE=a\<close>.
\<close>

theorem child_environment_only_witness:
  "os_environ < next_ref st_start
   \<and> dicts (snd (main_single_csv (always TimeoutExpired) csv_args_ab st_start)) os_environ =
       [(lit ''PATH'', lit ''/bin'')]
   \<and> dicts (snd (main_scan (always TimeoutExpired) scan_args_ab st_start)) os_environ =
       [(lit ''PATH'', lit ''/bin'')]
   \<and> map snd (spawns (trace (snd (run_deployment_scanner (always TimeoutExpired) (lit ''a'')
         (lit ''us-east-1'') None None (lit ''out'') st_start)))) =
       [[(lit ''PATH'', lit ''/bin''), (lit ''AWS_PROFILE'', lit ''a'')]]
   \<and> map snd (spawns (trace (snd (run_deployment_scanner_and_parse_csv (always TimeoutExpired)
         (lit ''a'') (lit ''us-east-1'') None None (lit ''temp_a'') st_start)))) =
       [[(lit ''PATH'', lit ''/bin''), (lit ''AWS_PROFILE'', lit ''a'')]]"
proof -
  have n: "os_environ < next_ref st_start"
    by (simp add: st_start_def start_def)
  have e: "dicts st_start os_environ = [(lit ''PATH'', lit ''/bin'')]" "spawns (trace st_start) = []"
    by (simp_all add: st_start_def start_def spawns_simps)
  have c: "child_env st_start (lit ''a'') = [(lit ''PATH'', lit ''/bin''), (lit ''AWS_PROFILE'', lit ''a'')]"
    by (simp add: child_env_def e lit_def)
  from child_environment_only [OF n, of "always TimeoutExpired" "lit ''a''" "lit ''us-east-1''"
      None None "lit ''out''" csv_args_ab scan_args_ab]
    child_environment_only [OF n, of "always TimeoutExpired" "lit ''a''" "lit ''us-east-1''"
      None None "lit ''temp_a''" csv_args_ab scan_args_ab]
    n
  show ?thesis by (simp add: e c)
qed

section \<open>C10: \<open>default\<close> by substring, sections with trailing text\<close>

text \<open>
  C10.  For a configuration file with text \<open>content\<close>, \<open>default\<close> is in the list that
  \<open>get_aws_profiles\<close> returns exactly when \<open>[default]\<close> is a substring of the text,
  wherever it stands.  And where \<open>^\<close> holds, a bracket, a non-empty text \<open>n\<close> without
  \<open>]\<close> and the closing bracket are one match of the pattern whatever text \<open>t\<close> follows
  the closing bracket: the group does not depend on \<open>t\<close>, and the scan goes on in \<open>t\<close>.
\<close>

theorem default_by_substring:
  assumes "config st = Content content" and "n \<noteq> []" and "93 \<notin> set n"
  shows "(\<exists>ps. fst (get_aws_profiles st) = Inr ps \<and>
            (lit ''default'' \<in> set ps \<longleftrightarrow>
               (\<exists>pre suf. content = pre @ lit ''[default]'' @ suf)))
         \<and> (\<exists>g. \<forall>t. findall True (91 # n @ 93 # t) = g # findall False t)"
  using default_mem [OF assms(1)] findall_section [OF assms(3) assms(2)] by (rule conjI)

text \<open>
  \<open>x = [default]\<close>, where the brackets stand in the middle of a line, yields \<open>default\<close>;
  the section \<open>[a]\<close> is matched before the text that follows it.
\<close>

theorem default_by_substring_witness:
  "config (start (Content cfg_midline) [] [] Map.empty) = Content cfg_midline
   \<and> lit ''a'' \<noteq> [] \<and> 93 \<notin> set (lit ''a'')
   \<and> (\<exists>ps. fst (get_aws_profiles (start (Content cfg_midline) [] [] Map.empty)) = Inr ps \<and>
            (lit ''default'' \<in> set ps \<longleftrightarrow>
               (\<exists>pre suf. cfg_midline = pre @ lit ''[default]'' @ suf)))
   \<and> (\<exists>g. \<forall>t. findall True (91 # lit ''a'' @ 93 # t) = g # findall False t)
   \<and> fst (get_aws_profiles (start (Content cfg_midline) [] [] Map.empty)) =
       Inr ([] @ [lit ''default''])
   \<and> fst (get_aws_profiles (start (Content cfg_trailing) [] [] Map.empty)) =
       Inr ([lit ''a''] @ [])"
proof -
  have c: "config (start (Content cfg_midline) [] [] Map.empty) = Content cfg_midline"
    by (simp add: start_def)
  have n1: "lit ''a'' \<noteq> []" and n2: "93 \<notin> set (lit ''a'')"
    by (simp_all add: lit_def)
  from c n1 n2 default_by_substring [OF c n1 n2] midline_default trailing_text
  show ?thesis by blast
qed

end
